theory Spec2Isabelle
  imports Complex_Main "HOL-Library.Log_Nat"
begin

section \<open>The relational store of the server\<close>

text \<open>
  The server keeps five tables in one SQLite file. A table is modelled as the list of its
  rows in insertion order, which is the order an unordered \<^verbatim>\<open>SELECT\<close> scans them in.
  The columns \<^verbatim>\<open>created_at\<close> and \<^verbatim>\<open>order_index\<close> are bound by no statement of a
  handler (the first takes the default of the schema, the second stays null) and enter no
  computation; they are left out of the rows.
\<close>

record course_row =
  c_id :: string
  c_title :: string
  c_description :: string
  c_image_url :: string

record module_row =
  m_id :: string
  m_course_id :: string
  m_title :: string

record lesson_row =
  l_id :: string
  l_module_id :: string
  l_title :: string
  l_concept :: string
  l_example :: string
  l_practice_guided :: string
  l_practice_independent :: string
  l_language :: string

record step_row =
  sp_id :: nat
  sp_lesson_id :: string
  sp_step_id :: string
  sp_status :: string
  sp_updated_at :: nat

record settings_row =
  s_id :: int
  s_theme :: string
  s_voice_enabled :: int

record db =
  courses :: "course_row list"
  modules :: "module_row list"
  lessons :: "lesson_row list"
  step_progress :: "step_row list"
  step_seq :: nat
  settings :: "settings_row list"

text \<open>
  What a statement of the driver can throw: \<^verbatim>\<open>RangeError\<close> when the number of bound
  values differs from the number of placeholders of the statement, and an
  \<^verbatim>\<open>SqliteError\<close> when a constraint of the schema rejects the row.
\<close>

datatype error = RangeError string | SqliteError string

text \<open>The answer of a handler: the store it leaves behind, and the response or the error.\<close>

type_synonym 'a handled = "db \<times> (error + 'a)"

datatype ack = Success

subsection \<open>Settings\<close>

text \<open>\<^verbatim>\<open>SELECT * FROM settings WHERE id = 1\<close>, read with \<^verbatim>\<open>.get()\<close>.\<close>

definition select_settings :: "db \<Rightarrow> settings_row option" where
  "select_settings d = find (\<lambda>r. s_id r = 1) (settings d)"

text \<open>
  \<^verbatim>\<open>INSERT INTO settings (id) VALUES (1)\<close>: the other columns take the defaults of the
  schema; the primary key rejects a second row with the same id.
\<close>

definition insert_default_settings :: "db \<Rightarrow> error + db" where
  "insert_default_settings d =
     (if 1 \<in> set (map s_id (settings d))
      then Inl (SqliteError ''UNIQUE constraint failed: settings.id'')
      else Inr (d\<lparr>settings := settings d @
             [\<lparr>s_id = 1, s_theme = ''dark'', s_voice_enabled = 1\<rparr>]\<rparr>))"

text \<open>\<^verbatim>\<open>app.get("/api/settings")\<close>\<close>

definition get_settings :: "db \<Rightarrow> (settings_row option) handled" where
  "get_settings d =
     (case select_settings d of
        Some s \<Rightarrow> (d, Inr (Some s))
      | None \<Rightarrow>
          (case insert_default_settings d of
             Inl e \<Rightarrow> (d, Inl e)
           | Inr d' \<Rightarrow> (d', Inr (select_settings d'))))"

text \<open>
  The body of \<^verbatim>\<open>POST /api/settings\<close>: the theme, and whether the posted
  \<^verbatim>\<open>voice_enabled\<close> is truthy.
\<close>

record settings_body =
  b_theme :: string
  b_voice_enabled :: bool

text \<open>\<^verbatim>\<open>UPDATE settings SET theme = ?, voice_enabled = ? WHERE id = 1\<close>\<close>

definition update_settings :: "string \<Rightarrow> int \<Rightarrow> db \<Rightarrow> db" where
  "update_settings theme voice d =
     d\<lparr>settings := map (\<lambda>r. if s_id r = 1
                              then r\<lparr>s_theme := theme, s_voice_enabled := voice\<rparr>
                              else r) (settings d)\<rparr>"

text \<open>\<^verbatim>\<open>app.post("/api/settings")\<close>\<close>

definition post_settings :: "settings_body \<Rightarrow> db \<Rightarrow> ack handled" where
  "post_settings body d =
     (update_settings (b_theme body) (if b_voice_enabled body then 1 else 0) d, Inr Success)"

subsection \<open>Step progress\<close>

text \<open>The body of \<^verbatim>\<open>POST /api/progress\<close>.\<close>

record progress_body =
  pb_lesson_id :: string
  pb_step_id :: string
  pb_status :: string

text \<open>
  \<^verbatim>\<open>SELECT * FROM step_progress WHERE lesson_id = ? AND step_id = ?\<close>, read with
  \<^verbatim>\<open>.get(...)\<close>. The statement has two placeholders; the driver (better-sqlite3) checks
  the number of bound values before it runs the statement and throws a \<^verbatim>\<open>RangeError\<close>
  when they differ.
\<close>

definition select_step :: "string list \<Rightarrow> db \<Rightarrow> error + step_row option" where
  "select_step bound d =
     (if length bound < 2 then Inl (RangeError ''Too few parameter values were provided'')
      else if 2 < length bound
      then Inl (RangeError ''Too many parameter values were provided'')
      else Inr (find (\<lambda>r. sp_lesson_id r = bound ! 0 \<and> sp_step_id r = bound ! 1)
                  (step_progress d)))"

text \<open>
  \<^verbatim>\<open>UPDATE step_progress SET status = ?, updated_at = CURRENT_TIMESTAMP
  WHERE lesson_id = ? AND step_id = ?\<close>, with the clock reading \<open>now\<close>.
\<close>

definition update_step :: "string \<Rightarrow> string \<Rightarrow> string \<Rightarrow> nat \<Rightarrow> db \<Rightarrow> db" where
  "update_step status lesson_id step_id now d =
     d\<lparr>step_progress :=
         map (\<lambda>r. if sp_lesson_id r = lesson_id \<and> sp_step_id r = step_id
                   then r\<lparr>sp_status := status, sp_updated_at := now\<rparr> else r)
           (step_progress d)\<rparr>"

text \<open>
  \<^verbatim>\<open>INSERT INTO step_progress (lesson_id, step_id, status) VALUES (?, ?, ?)\<close>: the id
  comes from the autoincrement sequence, \<^verbatim>\<open>updated_at\<close> from the clock, and
  \<^verbatim>\<open>UNIQUE(lesson_id, step_id)\<close> rejects a second row for the pair.
\<close>

definition insert_step :: "string \<Rightarrow> string \<Rightarrow> string \<Rightarrow> nat \<Rightarrow> db \<Rightarrow> error + db" where
  "insert_step lesson_id step_id status now d =
     (if (lesson_id, step_id) \<in> set (map (\<lambda>r. (sp_lesson_id r, sp_step_id r)) (step_progress d))
      then Inl (SqliteError
        ''UNIQUE constraint failed: step_progress.lesson_id, step_progress.step_id'')
      else Inr (d\<lparr>step_progress := step_progress d @
                   [\<lparr>sp_id = Suc (step_seq d), sp_lesson_id = lesson_id,
                     sp_step_id = step_id, sp_status = status, sp_updated_at = now\<rparr>],
                 step_seq := Suc (step_seq d)\<rparr>))"

text \<open>
  \<^verbatim>\<open>app.post("/api/progress")\<close>. The lookup is run as \<^verbatim>\<open>.get()\<close>, with no bound value;
  the update and the insert bind theirs. An error thrown by a statement leaves the handler
  (the framework answers 500) with the store as it is at that point.
\<close>

definition post_progress :: "progress_body \<Rightarrow> nat \<Rightarrow> db \<Rightarrow> ack handled" where
  "post_progress body now d =
     (case select_step [] d of
        Inl e \<Rightarrow> (d, Inl e)
      | Inr existing \<Rightarrow>
          (case existing of
             Some _ \<Rightarrow>
               (update_step (pb_status body) (pb_lesson_id body) (pb_step_id body) now d,
                Inr Success)
           | None \<Rightarrow>
               (case insert_step (pb_lesson_id body) (pb_step_id body) (pb_status body) now d of
                  Inl e \<Rightarrow> (d, Inl e)
                | Inr d' \<Rightarrow> (d', Inr Success))))"

text \<open>
  The upsert in the words of the specification, \<open>recordStep (lesson_id, step_id, status)\<close>:
  look up the existing row of the pair; if present, overwrite its status and refresh
  \<^verbatim>\<open>updated_at\<close>; else insert a new row.
\<close>

definition spec_recordStep :: "string \<Rightarrow> string \<Rightarrow> string \<Rightarrow> nat \<Rightarrow> db \<Rightarrow> db" where
  "spec_recordStep lesson_id step_id status now d =
     (case find (\<lambda>r. sp_lesson_id r = lesson_id \<and> sp_step_id r = step_id) (step_progress d) of
        Some _ \<Rightarrow> update_step status lesson_id step_id now d
      | None \<Rightarrow>
          d\<lparr>step_progress := step_progress d @
               [\<lparr>sp_id = Suc (step_seq d), sp_lesson_id = lesson_id,
                 sp_step_id = step_id, sp_status = status, sp_updated_at = now\<rparr>],
            step_seq := Suc (step_seq d)\<rparr>)"

text \<open>\<^verbatim>\<open>app.get("/api/progress")\<close>\<close>

definition get_progress :: "db \<Rightarrow> (step_row list) handled" where
  "get_progress d = (d, Inr (step_progress d))"

subsection \<open>Numbers\<close>

text \<open>
  A JavaScript number is an IEEE 754 binary64 value. The finite ones are rationals, and
  every arithmetic operation returns the exact result rounded to the nearest value with a
  53-bit significand, ties to the even significand. \<open>expo x\<close> is the binary exponent of a
  positive \<open>x\<close> (\<open>2 powi expo x \<le> x < 2 powi (expo x + 1)\<close>), \<open>rne\<close> rounds a rational to the
  nearest integer, ties to even, and \<open>fl\<close> rounds a rational to binary64. The exponent
  range is left unbounded: the counts and percentages computed here are far from the
  overflow and underflow thresholds.
\<close>

definition expo :: "rat \<Rightarrow> int" where
  "expo x = (let k = bitlen (fst (quotient_of x)) - bitlen (snd (quotient_of x))
             in if 2 powi k \<le> x then k else k - 1)"

definition rne :: "rat \<Rightarrow> int" where
  "rne y = (let f = \<lfloor>y\<rfloor>; r = y - of_int f
            in if r < 1 / 2 then f
               else if 1 / 2 < r then f + 1
               else if even f then f else f + 1)"

definition fl :: "rat \<Rightarrow> rat" where
  "fl x = (if x = 0 then 0
           else if 0 < x then of_int (rne (x / 2 powi (expo x - 52))) * 2 powi (expo x - 52)
           else - (of_int (rne (- x / 2 powi (expo (- x) - 52))) * 2 powi (expo (- x) - 52)))"

text \<open>The number a 64-bit count of the store becomes, and the operators \<^verbatim>\<open>*\<close> and \<^verbatim>\<open>/\<close>.\<close>

definition js_of_nat :: "nat \<Rightarrow> rat" where
  "js_of_nat n = fl (of_nat n)"

definition js_mul :: "rat \<Rightarrow> rat \<Rightarrow> rat" where
  "js_mul a b = fl (a * b)"

definition js_div :: "rat \<Rightarrow> rat \<Rightarrow> rat" where
  "js_div a b = fl (a / b)"

text \<open>\<^verbatim>\<open>Math.round\<close>: the nearest integer, a tie going up.\<close>

definition math_round :: "rat \<Rightarrow> int" where
  "math_round x = \<lfloor>x + 1 / 2\<rfloor>"

subsection \<open>The course catalogue\<close>

text \<open>What \<^verbatim>\<open>GET /api/courses\<close> answers: the rows, nested, with the computed progress.\<close>

record module_json = module_row +
  mj_lessons :: "lesson_row list"

record course_json = course_row +
  cj_modules :: "module_json list"
  cj_progress :: int

text \<open>
  \<^verbatim>\<open>SELECT COUNT(*) FROM step_progress WHERE lesson_id IN (...) AND status = 'completed'\<close>
\<close>

definition count_completed :: "string list \<Rightarrow> step_row list \<Rightarrow> nat" where
  "count_completed allLessonIds tbl =
     length (filter (\<lambda>r. sp_lesson_id r \<in> set allLessonIds \<and> sp_status r = ''completed'') tbl)"

text \<open>
  The progress computation of \<^verbatim>\<open>app.get("/api/courses")\<close>. The length of an array is an
  integer below \<open>2 ^ 32\<close> and is a number as it stands.
\<close>

definition course_progress :: "string list \<Rightarrow> step_row list \<Rightarrow> int" where
  "course_progress allLessonIds tbl =
     (let totalSteps = js_mul (of_nat (length allLessonIds)) 5;
          completedCount =
            (if 0 < length allLessonIds then js_of_nat (count_completed allLessonIds tbl)
             else 0)
      in if 0 < totalSteps then math_round (js_mul (js_div completedCount totalSteps) 100)
         else 0)"

definition full_module :: "db \<Rightarrow> module_row \<Rightarrow> module_json" where
  "full_module d md =
     \<lparr>m_id = m_id md, m_course_id = m_course_id md, m_title = m_title md,
      mj_lessons = filter (\<lambda>l. l_module_id l = m_id md) (lessons d)\<rparr>"

definition full_course :: "db \<Rightarrow> course_row \<Rightarrow> course_json" where
  "full_course d course =
     (let fullModules =
            map (full_module d) (filter (\<lambda>m. m_course_id m = c_id course) (modules d));
          allLessonIds = concat (map (\<lambda>m. map l_id (mj_lessons m)) fullModules)
      in \<lparr>c_id = c_id course, c_title = c_title course,
          c_description = c_description course, c_image_url = c_image_url course,
          cj_modules = fullModules,
          cj_progress = course_progress allLessonIds (step_progress d)\<rparr>)"

text \<open>\<^verbatim>\<open>app.get("/api/courses")\<close>\<close>

definition get_courses :: "db \<Rightarrow> course_json list" where
  "get_courses d = map (full_course d) (courses d)"

text \<open>
  The progress formula in the words of the specification:
  \<open>round (100 \<times> completed_steps / (lessons_in_course \<times> 5))\<close>, and 0 for a course without
  lessons.
\<close>

definition spec_progress :: "nat \<Rightarrow> nat \<Rightarrow> int" where
  "spec_progress lessons_in_course completed_steps =
     (if lessons_in_course = 0 then 0
      else round (100 * rat_of_nat completed_steps / rat_of_nat (lessons_in_course * 5)))"

text \<open>The five stages of a lesson, in order.\<close>

definition step_ids :: "string list" where
  "step_ids = [''explanation'', ''example'', ''guided'', ''independent'', ''feedback'']"

subsection \<open>Posting a course\<close>

text \<open>
  The body of \<^verbatim>\<open>POST /api/courses\<close>, as the client's \<^verbatim>\<open>Course\<close>, \<^verbatim>\<open>Module\<close> and
  \<^verbatim>\<open>Lesson\<close> types shape it. An id or an image URL may be missing from the JSON. The
  handler reads \<^verbatim>\<open>title\<close>, \<^verbatim>\<open>description\<close>, \<^verbatim>\<open>image_url\<close> and \<^verbatim>\<open>modules\<close> of the
  body, not its \<^verbatim>\<open>id\<close>.
\<close>

record lesson_body =
  lb_id :: "string option"
  lb_title :: string
  lb_concept :: string
  lb_example :: string
  lb_practice_guided :: string
  lb_practice_independent :: string
  lb_language :: string

record module_body =
  mb_id :: "string option"
  mb_title :: string
  mb_lessons :: "lesson_body list"

record course_body =
  cb_id :: "string option"
  cb_title :: string
  cb_description :: string
  cb_image_url :: "string option"
  cb_modules :: "module_body list"

text \<open>\<^verbatim>\<open>x || y\<close> for a string that may be missing: missing and empty are both falsy.\<close>

definition or_else :: "string option \<Rightarrow> string \<Rightarrow> string" where
  "or_else x y = (case x of Some s \<Rightarrow> if s = [] then y else s | None \<Rightarrow> y)"

text \<open>The three inserts; each primary key rejects an id that is already in its table.\<close>

definition insert_course :: "course_row \<Rightarrow> db \<Rightarrow> error + db" where
  "insert_course row d =
     (if c_id row \<in> set (map c_id (courses d))
      then Inl (SqliteError ''UNIQUE constraint failed: courses.id'')
      else Inr (d\<lparr>courses := courses d @ [row]\<rparr>))"

definition insert_module :: "module_row \<Rightarrow> db \<Rightarrow> error + db" where
  "insert_module row d =
     (if m_id row \<in> set (map m_id (modules d))
      then Inl (SqliteError ''UNIQUE constraint failed: modules.id'')
      else Inr (d\<lparr>modules := modules d @ [row]\<rparr>))"

definition insert_lesson :: "lesson_row \<Rightarrow> db \<Rightarrow> error + db" where
  "insert_lesson row d =
     (if l_id row \<in> set (map l_id (lessons d))
      then Inl (SqliteError ''UNIQUE constraint failed: lessons.id'')
      else Inr (d\<lparr>lessons := lessons d @ [row]\<rparr>))"

text \<open>
  The handler makes its ids from \<^verbatim>\<open>Date.now()\<close> and \<^verbatim>\<open>Math.random()\<close>. \<open>gen k\<close> is the
  text these yield at the \<open>k\<close>-th row the handler writes: the digits of the clock for the
  course, the digits, an underscore and nine random characters for a module or a lesson.
  Each iteration passes the number of rows written so far along with the store, and the
  handler stops at the first statement that throws; there is no transaction, so what was
  written stays.
  \<open>course_row_of\<close>, \<open>module_row_of\<close> and \<open>lesson_row_of\<close> are the values bound to the three
  \<^verbatim>\<open>INSERT\<close> statements.
\<close>

definition lesson_row_of :: "string \<Rightarrow> string \<Rightarrow> lesson_body \<Rightarrow> lesson_row" where
  "lesson_row_of lessonId moduleId lesson =
     \<lparr>l_id = lessonId, l_module_id = moduleId, l_title = lb_title lesson,
      l_concept = lb_concept lesson, l_example = lb_example lesson,
      l_practice_guided = lb_practice_guided lesson,
      l_practice_independent = lb_practice_independent lesson,
      l_language = lb_language lesson\<rparr>"

definition course_row_of :: "string \<Rightarrow> course_body \<Rightarrow> course_row" where
  "course_row_of courseId body =
     \<lparr>c_id = courseId, c_title = cb_title body, c_description = cb_description body,
      c_image_url = or_else (cb_image_url body)
        (''https://picsum.photos/seed/'' @ courseId @ ''/800/450'')\<rparr>"

definition module_row_of :: "string \<Rightarrow> string \<Rightarrow> module_body \<Rightarrow> module_row" where
  "module_row_of moduleId courseId md =
     \<lparr>m_id = moduleId, m_course_id = courseId, m_title = mb_title md\<rparr>"

fun insert_lessons ::
  "(nat \<Rightarrow> string) \<Rightarrow> string \<Rightarrow> lesson_body list \<Rightarrow> nat \<Rightarrow> db \<Rightarrow> error option \<times> nat \<times> db" where
  "insert_lessons gen moduleId [] n d = (None, n, d)"
| "insert_lessons gen moduleId (lesson # rest) n d =
     (let lessonId = or_else (lb_id lesson) (''l'' @ gen n)
      in case insert_lesson (lesson_row_of lessonId moduleId lesson) d of
           Inl e \<Rightarrow> (Some e, Suc n, d)
         | Inr d' \<Rightarrow> insert_lessons gen moduleId rest (Suc n) d')"

fun insert_modules ::
  "(nat \<Rightarrow> string) \<Rightarrow> string \<Rightarrow> module_body list \<Rightarrow> nat \<Rightarrow> db \<Rightarrow> error option \<times> nat \<times> db" where
  "insert_modules gen courseId [] n d = (None, n, d)"
| "insert_modules gen courseId (md # rest) n d =
     (let moduleId = or_else (mb_id md) (''m'' @ gen n)
      in case insert_module (module_row_of moduleId courseId md) d of
           Inl e \<Rightarrow> (Some e, Suc n, d)
         | Inr d1 \<Rightarrow>
             (case insert_lessons gen moduleId (mb_lessons md) (Suc n) d1 of
                (Some e, n', d2) \<Rightarrow> (Some e, n', d2)
              | (None, n', d2) \<Rightarrow> insert_modules gen courseId rest n' d2))"

text \<open>\<^verbatim>\<open>app.post("/api/courses")\<close>; it answers the id of the course.\<close>

definition post_course :: "(nat \<Rightarrow> string) \<Rightarrow> course_body \<Rightarrow> db \<Rightarrow> string handled" where
  "post_course gen body d =
     (let courseId = ''c'' @ gen 0
      in case insert_course (course_row_of courseId body) d of
           Inl e \<Rightarrow> (d, Inl e)
         | Inr d1 \<Rightarrow>
             (case insert_modules gen courseId (cb_modules body) 1 d1 of
                (Some e, n, d2) \<Rightarrow> (d2, Inl e)
              | (None, n, d2) \<Rightarrow> (d2, Inr courseId)))"

text \<open>
  The foreign keys of the schema: every module belongs to a course of the store, every
  lesson to a module of the store.
\<close>

definition fk_ok :: "db \<Rightarrow> bool" where
  "fk_ok d \<longleftrightarrow>
     set (map m_course_id (modules d)) \<subseteq> set (map c_id (courses d)) \<and>
     set (map l_module_id (lessons d)) \<subseteq> set (map m_id (modules d))"

text \<open>
  What it is for a posted lesson or module to come back: the same text fields, in the
  same order, and the posted id when one was posted (an id that is missing or empty is
  no id).
\<close>

definition id_round_trip :: "string option \<Rightarrow> string \<Rightarrow> bool" where
  "id_round_trip posted stored =
     (case posted of Some s \<Rightarrow> s = [] \<or> stored = s | None \<Rightarrow> True)"

definition lesson_round_trip :: "lesson_body \<Rightarrow> lesson_row \<Rightarrow> bool" where
  "lesson_round_trip posted stored \<longleftrightarrow>
     l_title stored = lb_title posted \<and> l_concept stored = lb_concept posted \<and>
     l_example stored = lb_example posted \<and>
     l_practice_guided stored = lb_practice_guided posted \<and>
     l_practice_independent stored = lb_practice_independent posted \<and>
     l_language stored = lb_language posted \<and>
     id_round_trip (lb_id posted) (l_id stored)"

definition module_round_trip :: "module_body \<Rightarrow> module_json \<Rightarrow> bool" where
  "module_round_trip posted stored \<longleftrightarrow>
     m_title stored = mb_title posted \<and>
     id_round_trip (mb_id posted) (m_id stored) \<and>
     list_all2 lesson_round_trip (mb_lessons posted) (mj_lessons stored)"

text \<open>
  The rows one posted module adds to the store, a module row and its lesson rows, checked
  against what was posted; and the module that \<^verbatim>\<open>GET /api/courses\<close> makes of them.
\<close>

definition module_rows_ok ::
  "string \<Rightarrow> module_body \<Rightarrow> module_row \<times> lesson_row list \<Rightarrow> bool" where
  "module_rows_ok courseId posted p \<longleftrightarrow>
     m_title (fst p) = mb_title posted \<and> m_course_id (fst p) = courseId \<and>
     id_round_trip (mb_id posted) (m_id (fst p)) \<and>
     list_all2 lesson_round_trip (mb_lessons posted) (snd p) \<and>
     (\<forall>l \<in> set (snd p). l_module_id l = m_id (fst p))"

definition module_json_of :: "module_row \<times> lesson_row list \<Rightarrow> module_json" where
  "module_json_of p =
     \<lparr>m_id = m_id (fst p), m_course_id = m_course_id (fst p), m_title = m_title (fst p),
      mj_lessons = snd p\<rparr>"

section \<open>The retry wrapper of the AI calls\<close>

text \<open>
  A value thrown in the client: an \<^verbatim>\<open>Error\<close> object with its message and, when it
  has one, its \<^verbatim>\<open>status\<close> property; a string; a DOM event with its type; or anything
  else, given by its \<^verbatim>\<open>message\<close> and \<^verbatim>\<open>status\<close> properties when present, by what
  \<^verbatim>\<open>JSON.stringify\<close> makes of it (nothing when that throws in turn) and by what
  \<^verbatim>\<open>String\<close> makes of it.
\<close>

datatype js_thrown =
    JsError string "string option"
  | JsString string
  | JsEvent string
  | JsOther "string option" "string option" "string option" string

fun thrown_message :: "js_thrown \<Rightarrow> string option" where
  "thrown_message (JsError m _) = Some m"
| "thrown_message (JsOther m _ _ _) = m"
| "thrown_message _ = None"

fun thrown_status :: "js_thrown \<Rightarrow> string option" where
  "thrown_status (JsError _ s) = s"
| "thrown_status (JsOther _ s _ _) = s"
| "thrown_status _ = None"

text \<open>\<^verbatim>\<open>String.prototype.includes\<close>\<close>

fun str_includes :: "string \<Rightarrow> string \<Rightarrow> bool" where
  "str_includes [] sub = (sub = [])"
| "str_includes (c # s) sub = (take (length sub) (c # s) = sub \<or> str_includes s sub)"

text \<open>
  \<^verbatim>\<open>error?.message?.includes("429") || error?.message?.includes("quota") ||
  error?.status === "RESOURCE_EXHAUSTED"\<close>
\<close>

definition isQuotaError :: "js_thrown \<Rightarrow> bool" where
  "isQuotaError error =
     ((case thrown_message error of
         Some m \<Rightarrow> str_includes m ''429'' \<or> str_includes m ''quota''
       | None \<Rightarrow> False)
      \<or> thrown_status error = Some ''RESOURCE_EXHAUSTED'')"

text \<open>
  What a run of \<^verbatim>\<open>withRetry\<close> amounts to: the value it resolves to or the value it
  rejects with, the number of times it has called \<^verbatim>\<open>fn\<close>, and the delays it has
  waited, in order and in milliseconds.
\<close>

record 'a retry_run =
  rr_result :: "js_thrown + 'a"
  rr_calls :: nat
  rr_sleeps :: "nat list"

text \<open>
  The loop of \<^verbatim>\<open>withRetry\<close> from iteration \<open>i\<close> on. \<open>fn k\<close> is the outcome of the call
  of \<^verbatim>\<open>fn\<close> made in iteration \<open>k\<close>.
\<close>

function withRetry_from ::
  "(nat \<Rightarrow> js_thrown + 'a) \<Rightarrow> nat \<Rightarrow> nat \<Rightarrow> nat \<Rightarrow> 'a retry_run" where
  "withRetry_from fn retries i delay =
     (if i < retries then
        (case fn i of
           Inr v \<Rightarrow> \<lparr>rr_result = Inr v, rr_calls = 1, rr_sleeps = []\<rparr>
         | Inl error \<Rightarrow>
             if isQuotaError error \<and> i < retries - 1
             then (let r = withRetry_from fn retries (i + 1) (delay * 2)
                   in r\<lparr>rr_calls := Suc (rr_calls r), rr_sleeps := delay # rr_sleeps r\<rparr>)
             else \<lparr>rr_result = Inl error, rr_calls = 1, rr_sleeps = []\<rparr>)
      else \<lparr>rr_result = Inl (JsError ''Max retries exceeded'' None), rr_calls = 0,
            rr_sleeps = []\<rparr>)"
  by pat_completeness auto
termination
  by (relation "measure (\<lambda>(fn, retries, i, delay). retries - i)") auto

text \<open>\<^verbatim>\<open>withRetry(fn, retries = 3, delay = 1000)\<close>\<close>

definition withRetry :: "(nat \<Rightarrow> js_thrown + 'a) \<Rightarrow> nat \<Rightarrow> nat \<Rightarrow> 'a retry_run" where
  "withRetry fn retries delay = withRetry_from fn retries 0 delay"

section \<open>The code runner of the client\<close>

text \<open>
  The state of the \<^verbatim>\<open>CodeIDE\<close> component that \<^verbatim>\<open>runCode\<close> reads and writes, with the
  parts of the page it touches: what \<^verbatim>\<open>console.log\<close> is bound to, and the document of
  the preview frame when the frame is mounted. Three fields record what the component has
  done: the arguments of its \<^verbatim>\<open>setOutput\<close> calls, the sources it has handed to the
  Python interpreter, the feedback requests it has sent (lesson, code, output) and the
  feedbacks it has passed to \<^verbatim>\<open>onFeedback\<close>.
\<close>

datatype tab = Editor | Preview

datatype log_hook = NativeLog | CaptureLog | OtherLog nat

datatype feedback = Feedback bool string

record ide_state =
  ide_output :: string
  isRunning :: bool
  activeTab :: tab
  pyodide_ready :: bool
  iframe_doc :: "string option"
  console_log :: log_hook
  output_calls :: "string list"
  python_runs :: "string list"
  feedback_requests :: "(lesson_row \<times> string \<times> string) list"
  feedback_delivered :: "feedback list"

text \<open>The props of the component that \<^verbatim>\<open>runCode\<close> uses.\<close>

record ide_props =
  p_lesson :: lesson_row
  p_code :: string

text \<open>
  What the world outside the component does during one run: the calls of \<^verbatim>\<open>console\<close>
  methods that \<^verbatim>\<open>eval(code)\<close> makes (\<^verbatim>\<open>console.log\<close> or another method, given by its
  name), each with its arguments as \<^verbatim>\<open>String\<close> renders them, and the value it throws
  after them, if any; what \<^verbatim>\<open>pyodide.runPythonAsync(code)\<close> resolves
  to (as \<^verbatim>\<open>String\<close> renders it) or rejects with; and what \<^verbatim>\<open>getCodeFeedback\<close> resolves
  to or rejects with.
\<close>

datatype console_method = LogMethod | OtherMethod string

record run_env =
  js_calls :: "(console_method \<times> string list) list"
  js_fault :: "js_thrown option"
  py_outcome :: "js_thrown + string"
  feedback_outcome :: "js_thrown + feedback"

text \<open>
  A block of statements leaves a state and either completes or throws; \<^verbatim>\<open>try\<close>,
  \<^verbatim>\<open>catch\<close> and \<^verbatim>\<open>finally\<close> combine such outcomes.
\<close>

type_synonym outcome = "ide_state \<times> js_thrown option"

definition and_then :: "outcome \<Rightarrow> (ide_state \<Rightarrow> outcome) \<Rightarrow> outcome" where
  "and_then r k = (case r of (s, Some e) \<Rightarrow> (s, Some e) | (s, None) \<Rightarrow> k s)"

definition try_catch :: "outcome \<Rightarrow> (js_thrown \<Rightarrow> ide_state \<Rightarrow> outcome) \<Rightarrow> outcome" where
  "try_catch r handler = (case r of (s, Some e) \<Rightarrow> handler e s | (s, None) \<Rightarrow> (s, None))"

definition try_finally :: "outcome \<Rightarrow> (ide_state \<Rightarrow> ide_state) \<Rightarrow> outcome" where
  "try_finally r fin = (case r of (s, t) \<Rightarrow> (fin s, t))"

definition setOutput :: "string \<Rightarrow> ide_state \<Rightarrow> ide_state" where
  "setOutput s st = st\<lparr>ide_output := s, output_calls := output_calls st @ [s]\<rparr>"

text \<open>\<^verbatim>\<open>Array.prototype.join\<close> on strings, and \<^verbatim>\<open>a || b\<close> on strings.\<close>

fun js_join :: "string \<Rightarrow> string list \<Rightarrow> string" where
  "js_join sep [] = []"
| "js_join sep [x] = x"
| "js_join sep (x # y # ys) = x @ sep @ js_join sep (y # ys)"

text \<open>
  The elements of a list written one after the other with a separator between two
  neighbours, in terms of the list library.
\<close>

abbreviation separated_by :: "string \<Rightarrow> string list \<Rightarrow> string" where
  "separated_by sep xs \<equiv>
     (if xs = [] then [] else concat (map (\<lambda>x. x @ sep) (butlast xs)) @ last xs)"

definition js_or :: "string \<Rightarrow> string \<Rightarrow> string" where
  "js_or a b = (if a = [] then b else a)"

definition newline :: string where
  "newline = [CHR 0x0A]"

text \<open>\<^verbatim>\<open>formatError\<close>\<close>

fun formatError :: "js_thrown \<Rightarrow> string" where
  "formatError (JsError m _) = m"
| "formatError (JsString s) = s"
| "formatError (JsEvent t) = ''Event: '' @ t"
| "formatError (JsOther _ _ (Some json) _) = json"
| "formatError (JsOther _ _ None str) = str"

text \<open>
  One call of a \<^verbatim>\<open>console\<close> method with the array \<open>logs\<close> in scope. Only
  \<^verbatim>\<open>console.log\<close> is rebound by \<^verbatim>\<open>runCode\<close>: a call of it reaches the hook, which
  pushes the arguments, joined by a blank; a call of \<^verbatim>\<open>console.log\<close> under any other
  binding, and a call of any other method, leave the array alone.
\<close>

definition console_call ::
  "log_hook \<Rightarrow> string list \<Rightarrow> console_method \<times> string list \<Rightarrow> string list" where
  "console_call hook logs call =
     (if fst call = LogMethod \<and> hook = CaptureLog then logs @ [js_join '' '' (snd call)]
      else logs)"

text \<open>\<^verbatim>\<open>eval(code)\<close>: the calls it makes meet the current binding of \<^verbatim>\<open>console.log\<close>.\<close>

definition eval_js :: "run_env \<Rightarrow> ide_state \<Rightarrow> string list \<Rightarrow> string list \<times> js_thrown option" where
  "eval_js env st logs =
     (foldl (console_call (console_log st)) logs (js_calls env), js_fault env)"

text \<open>The \<^verbatim>\<open>javascript\<close> branch of \<^verbatim>\<open>runCode\<close>.\<close>

definition run_javascript :: "run_env \<Rightarrow> string \<Rightarrow> ide_state \<Rightarrow> outcome" where
  "run_javascript env code st =
     (let originalLog = console_log st;
          st1 = st\<lparr>console_log := CaptureLog\<rparr>;
          (logs, fault) = eval_js env st1 []
      in try_finally
           (try_catch
              (case fault of
                 None \<Rightarrow>
                   (setOutput (js_or (js_join newline logs)
                      ''Code executed successfully (no output).'') st1, None)
               | Some err \<Rightarrow> (st1, Some err))
              (\<lambda>err s. (setOutput (''Error: '' @ formatError err) s, None)))
           (\<lambda>s. s\<lparr>console_log := originalLog\<rparr>))"

text \<open>The \<^verbatim>\<open>html\<close> branch: the document of the frame, when there is one, is rewritten.\<close>

definition run_html :: "string \<Rightarrow> ide_state \<Rightarrow> outcome" where
  "run_html code st =
     (let st1 = st\<lparr>activeTab := Preview\<rparr>;
          st2 = (case iframe_doc st1 of
                   Some _ \<Rightarrow> st1\<lparr>iframe_doc := Some code\<rparr>
                 | None \<Rightarrow> st1)
      in (setOutput ''HTML rendered in preview.'' st2, None))"

text \<open>The \<^verbatim>\<open>python\<close> branch.\<close>

definition run_python :: "run_env \<Rightarrow> string \<Rightarrow> ide_state \<Rightarrow> outcome" where
  "run_python env code st =
     (if \<not> pyodide_ready st then (setOutput ''Python runtime not ready.'' st, None)
      else try_catch
             (case py_outcome env of
                Inr result \<Rightarrow>
                  (setOutput (js_or result ''Code executed successfully.'')
                     (st\<lparr>python_runs := python_runs st @ [code]\<rparr>), None)
              | Inl err \<Rightarrow> (st\<lparr>python_runs := python_runs st @ [code]\<rparr>, Some err))
             (\<lambda>err s. (setOutput (''Python Error: '' @ formatError err) s, None)))"

definition dispatch :: "run_env \<Rightarrow> ide_props \<Rightarrow> ide_state \<Rightarrow> outcome" where
  "dispatch env props st =
     (if l_language (p_lesson props) = ''javascript'' then run_javascript env (p_code props) st
      else if l_language (p_lesson props) = ''html'' then run_html (p_code props) st
      else if l_language (p_lesson props) = ''python'' then run_python env (p_code props) st
      else (st, None))"

text \<open>
  \<^verbatim>\<open>const feedback = await getCodeFeedback(lesson, code, output); onFeedback(feedback)\<close>
\<close>

definition request_feedback ::
  "run_env \<Rightarrow> lesson_row \<Rightarrow> string \<Rightarrow> string \<Rightarrow> ide_state \<Rightarrow> outcome" where
  "request_feedback env lesson code out st =
     (let st1 = st\<lparr>feedback_requests := feedback_requests st @ [(lesson, code, out)]\<rparr>
      in case feedback_outcome env of
           Inl err \<Rightarrow> (st1, Some err)
         | Inr fb \<Rightarrow> (st1\<lparr>feedback_delivered := feedback_delivered st1 @ [fb]\<rparr>, None))"

text \<open>
  \<^verbatim>\<open>runCode\<close>, started in state \<open>st\<close>. The \<^verbatim>\<open>output\<close> it passes to \<^verbatim>\<open>getCodeFeedback\<close>
  is the variable of the render the function was created in: the output shown when the
  run started.
\<close>

definition runCode :: "run_env \<Rightarrow> ide_props \<Rightarrow> ide_state \<Rightarrow> outcome" where
  "runCode env props st =
     try_finally
       (try_catch
          (and_then (dispatch env props (setOutput [] (st\<lparr>isRunning := True\<rparr>)))
             (request_feedback env (p_lesson props) (p_code props) (ide_output st)))
          (\<lambda>err s. (setOutput (''System Error: '' @ formatError err) s, None)))
       (\<lambda>s. s\<lparr>isRunning := False\<rparr>)"

section \<open>Sample stores\<close>

text \<open>Concrete stores and rows, for running the handlers on.\<close>

definition empty_db :: db where
  "empty_db = \<lparr>courses = [], modules = [], lessons = [], step_progress = [],
                step_seq = 0, settings = []\<rparr>"

definition mk_lesson :: "string \<Rightarrow> string \<Rightarrow> lesson_row" where
  "mk_lesson lesson_id module_id =
     \<lparr>l_id = lesson_id, l_module_id = module_id, l_title = ''Lesson'', l_concept = '''',
      l_example = '''', l_practice_guided = '''', l_practice_independent = '''',
      l_language = ''javascript''\<rparr>"

definition completed_rows :: "(string \<times> string) list \<Rightarrow> step_row list" where
  "completed_rows ps =
     map (\<lambda>(i, (l, s)). \<lparr>sp_id = Suc i, sp_lesson_id = l, sp_step_id = s,
                          sp_status = ''completed'', sp_updated_at = 0\<rparr>) (enumerate 0 ps)"

text \<open>
  One course of one module with eight lessons; four lessons have all five steps
  completed and a fifth has three: 23 completed steps of 40.
\<close>

definition eight_lessons_db :: db where
  "eight_lessons_db =
     \<lparr>courses = [\<lparr>c_id = ''c1'', c_title = ''Course'', c_description = '''',
                  c_image_url = ''''\<rparr>],
      modules = [\<lparr>m_id = ''m1'', m_course_id = ''c1'', m_title = ''Module''\<rparr>],
      lessons = map (\<lambda>l. mk_lesson l ''m1'')
                  [''l1'', ''l2'', ''l3'', ''l4'', ''l5'', ''l6'', ''l7'', ''l8''],
      step_progress = completed_rows
        (List.product [''l1'', ''l2'', ''l3'', ''l4''] step_ids @
         map (Pair ''l5'') (take 3 step_ids)),
      step_seq = 23, settings = []\<rparr>"

text \<open>
  A call that is refused for quota the first time, fails for another reason the second
  time and would succeed the third time.
\<close>

definition flaky :: "nat \<Rightarrow> js_thrown + string" where
  "flaky k = (if k = 0 then Inl (JsError ''429 Too Many Requests'' None)
              else if k = 1 then Inl (JsError ''fetch failed'' None)
              else Inr ''ok'')"

text \<open>The component before a run, and lessons in the three languages.\<close>

definition idle_ide :: ide_state where
  "idle_ide = \<lparr>ide_output = [], isRunning = False, activeTab = Editor, pyodide_ready = False,
               iframe_doc = None, console_log = NativeLog, output_calls = [],
               python_runs = [], feedback_requests = [], feedback_delivered = []\<rparr>"

definition js_lesson :: lesson_row where
  "js_lesson = mk_lesson ''l1'' ''m1''"

definition py_lesson :: lesson_row where
  "py_lesson = (mk_lesson ''l3'' ''m3'')\<lparr>l_language := ''python''\<rparr>"

text \<open>
  A script that logs \<^verbatim>\<open>1\<close> and returns, with the feedback request refused for quota;
  and a script that logs two lines and then throws, with the feedback request answered.
\<close>

definition env_feedback_fails :: run_env where
  "env_feedback_fails =
     \<lparr>js_calls = [(LogMethod, [''1''])], js_fault = None, py_outcome = Inr [],
      feedback_outcome = Inl (JsError ''429 quota exceeded'' None)\<rparr>"

definition env_js_throws :: run_env where
  "env_js_throws =
     \<lparr>js_calls = [(LogMethod, [''a'', ''1'']), (LogMethod, [''b''])],
      js_fault = Some (JsError ''x is not defined'' None),
      py_outcome = Inr [], feedback_outcome = Inr (Feedback False ''Try again'')\<rparr>"

definition env_js_logs :: run_env where
  "env_js_logs =
     \<lparr>js_calls = [(LogMethod, [''a'', ''1'']), (LogMethod, [''b''])], js_fault = None,
      py_outcome = Inr [], feedback_outcome = Inr (Feedback True ''Well done'')\<rparr>"

text \<open>
  A script that logs three lines, the first after a call of \<^verbatim>\<open>console.error\<close>, and
  returns.
\<close>

definition env_js_three_lines :: run_env where
  "env_js_three_lines =
     \<lparr>js_calls = [(OtherMethod ''error'', [''bad'']), (LogMethod, [''a'', ''1'']),
                  (LogMethod, [''b'']), (LogMethod, [''c'', ''d'', ''e''])],
      js_fault = None, py_outcome = Inr [],
      feedback_outcome = Inr (Feedback True ''Well done'')\<rparr>"

definition js_props :: ide_props where
  "js_props = \<lparr>p_lesson = js_lesson, p_code = ''console.log(1)''\<rparr>"

definition py_props :: ide_props where
  "py_props = \<lparr>p_lesson = py_lesson, p_code = ''print(1)''\<rparr>"

text \<open>
  A course as the builder posts it: an id of its own, a module with an id and a module
  without, lessons with and without ids. The clock and the random source of the request.
\<close>

definition lesson_b :: "string option \<Rightarrow> string \<Rightarrow> string \<Rightarrow> lesson_body" where
  "lesson_b lid title lang =
     \<lparr>lb_id = lid, lb_title = title, lb_concept = ''concept of '' @ title,
      lb_example = ''example of '' @ title, lb_practice_guided = ''guided '' @ title,
      lb_practice_independent = ''independent '' @ title, lb_language = lang\<rparr>"

definition posted_course :: course_body where
  "posted_course =
     \<lparr>cb_id = Some ''c9'', cb_title = ''Rust'', cb_description = ''Ownership and borrowing'',
      cb_image_url = None,
      cb_modules =
        [\<lparr>mb_id = Some ''mr1'', mb_title = ''Basics'',
          mb_lessons = [lesson_b (Some ''lr1'') ''Variables'' ''javascript'',
                        lesson_b None ''Functions'' ''python'']\<rparr>,
         \<lparr>mb_id = Some [], mb_title = ''Traits'',
          mb_lessons = [lesson_b (Some []) ''Generics'' ''html'']\<rparr>]\<rparr>"

definition request_ids :: "nat \<Rightarrow> string" where
  "request_ids k = (if k = 0 then ''1700000000000''
                    else ''1700000000000_'' @ replicate 9 (char_of (97 + k)))"

text \<open>
  A call that is refused for quota twice and then succeeds, and a call that is refused
  for quota every time.
\<close>

definition busy_twice :: "nat \<Rightarrow> js_thrown + string" where
  "busy_twice k = (if k < 2 then Inl (JsError ''429 Too Many Requests'' None) else Inr ''ok'')"

definition always_busy :: "nat \<Rightarrow> js_thrown + string" where
  "always_busy k = Inl (JsError ''quota exceeded'' (Some ''RESOURCE_EXHAUSTED''))"

section \<open>Settings: lazy creation and the lost update\<close>


text \<open>
  C6. \<^verbatim>\<open>GET /api/settings\<close> on an empty settings table answers
  \<^verbatim>\<open>{id:1, theme:'dark', voice_enabled:1}\<close> and leaves exactly that row in the table, so
  that the next read finds it there and answers the same without writing.
\<close>

theorem get_settings_lazy_defaults:
  "get_settings (d\<lparr>settings := []\<rparr>) =
     (d\<lparr>settings := [\<lparr>s_id = 1, s_theme = ''dark'', s_voice_enabled = 1\<rparr>]\<rparr>,
      Inr (Some \<lparr>s_id = 1, s_theme = ''dark'', s_voice_enabled = 1\<rparr>))
   \<and> get_settings (fst (get_settings (d\<lparr>settings := []\<rparr>))) =
     (fst (get_settings (d\<lparr>settings := []\<rparr>)),
      Inr (Some \<lparr>s_id = 1, s_theme = ''dark'', s_voice_enabled = 1\<rparr>))"
  by (simp add: get_settings_def select_settings_def insert_default_settings_def)

text \<open>
  C10. \<^verbatim>\<open>POST /api/settings\<close> on an empty settings table answers success and leaves
  the table empty, whatever was posted; the \<^verbatim>\<open>GET /api/settings\<close> that follows answers
  the defaults, not the posted values.
\<close>

theorem post_settings_on_empty_table_lost:
  "post_settings body (d\<lparr>settings := []\<rparr>) = (d\<lparr>settings := []\<rparr>, Inr Success)
   \<and> snd (get_settings (fst (post_settings body (d\<lparr>settings := []\<rparr>)))) =
       Inr (Some \<lparr>s_id = 1, s_theme = ''dark'', s_voice_enabled = 1\<rparr>)"
  by (simp add: post_settings_def update_settings_def get_settings_def select_settings_def
      insert_default_settings_def)

section \<open>Progress writes\<close>

lemma post_progress_throws:
  "post_progress body now d = (d, Inl (RangeError ''Too few parameter values were provided''))"
  by (simp add: post_progress_def select_step_def)

text \<open>
  The upsert of the specification does what the claim says: on a table with at most one
  row for each pair it leaves exactly one row for the pair it records, with the status
  recorded, and the table keeps at most one row for each pair.
\<close>

lemma filter_pair_updated:
  "map sp_status
     (filter (\<lambda>r. sp_lesson_id r = l \<and> sp_step_id r = s)
        (map (\<lambda>r. if sp_lesson_id r = l \<and> sp_step_id r = s
                  then r\<lparr>sp_status := st, sp_updated_at := now\<rparr> else r) tbl)) =
   map (\<lambda>r. st) (filter (\<lambda>r. sp_lesson_id r = l \<and> sp_step_id r = s) tbl)"
  by (induction tbl) auto

lemma keys_updated:
  "(\<lambda>r. (sp_lesson_id r, sp_step_id r)) \<circ>
     (\<lambda>r. if sp_lesson_id r = l \<and> sp_step_id r = s
          then r\<lparr>sp_status := st, sp_updated_at := now\<rparr> else r) =
   (\<lambda>r. (sp_lesson_id r, sp_step_id r))"
  by (auto simp: fun_eq_iff)

lemma one_row_of_pair:
  "distinct (map (\<lambda>r. (sp_lesson_id r, sp_step_id r)) tbl) \<Longrightarrow>
   find (\<lambda>r. sp_lesson_id r = l \<and> sp_step_id r = s) tbl = Some x \<Longrightarrow>
   length (filter (\<lambda>r. sp_lesson_id r = l \<and> sp_step_id r = s) tbl) = 1"
proof (induction tbl)
  case Nil
  then show ?case by simp
next
  case (Cons r tbl)
  show ?case
  proof (cases "sp_lesson_id r = l \<and> sp_step_id r = s")
    case True
    then have "(l, s) \<notin> set (map (\<lambda>r. (sp_lesson_id r, sp_step_id r)) tbl)"
      using Cons.prems(1) by auto
    then have "\<forall>y \<in> set tbl. \<not> (sp_lesson_id y = l \<and> sp_step_id y = s)" by force
    then have "filter (\<lambda>r. sp_lesson_id r = l \<and> sp_step_id r = s) tbl = []"
      by (simp add: filter_empty_conv)
    then show ?thesis using True by simp
  next
    case False
    then have "find (\<lambda>r. sp_lesson_id r = l \<and> sp_step_id r = s) tbl = Some x"
      using Cons.prems(2) by (auto split: if_splits)
    moreover have "distinct (map (\<lambda>r. (sp_lesson_id r, sp_step_id r)) tbl)"
      using Cons.prems(1) by simp
    ultimately have "length (filter (\<lambda>r. sp_lesson_id r = l \<and> sp_step_id r = s) tbl) = 1"
      using Cons.IH by blast
    then show ?thesis using False by simp
  qed
qed

lemma spec_recordStep_upsert:
  assumes "distinct (map (\<lambda>r. (sp_lesson_id r, sp_step_id r)) (step_progress d))"
  shows "map sp_status
           (filter (\<lambda>r. sp_lesson_id r = l \<and> sp_step_id r = s)
              (step_progress (spec_recordStep l s st now d))) = [st]
         \<and> distinct (map (\<lambda>r. (sp_lesson_id r, sp_step_id r))
              (step_progress (spec_recordStep l s st now d)))"
proof (cases "find (\<lambda>r. sp_lesson_id r = l \<and> sp_step_id r = s) (step_progress d)")
  case None
  then have no: "\<forall>y \<in> set (step_progress d). \<not> (sp_lesson_id y = l \<and> sp_step_id y = s)"
    by (simp add: find_None_iff)
  then have "filter (\<lambda>r. sp_lesson_id r = l \<and> sp_step_id r = s) (step_progress d) = []"
    by (simp add: filter_empty_conv)
  moreover have "(l, s) \<notin> set (map (\<lambda>r. (sp_lesson_id r, sp_step_id r)) (step_progress d))"
    using no by auto
  ultimately show ?thesis using None assms by (simp add: spec_recordStep_def)
next
  case (Some x)
  have "length (filter (\<lambda>r. sp_lesson_id r = l \<and> sp_step_id r = s) (step_progress d)) = 1"
    using one_row_of_pair[OF assms Some] .
  then obtain y where "filter (\<lambda>r. sp_lesson_id r = l \<and> sp_step_id r = s) (step_progress d) = [y]"
    by (auto simp: length_Suc_conv)
  then show ?thesis
    using Some assms
    by (simp add: spec_recordStep_def update_step_def filter_pair_updated keys_updated)
qed

text \<open>
  C1 (the code departs from the claim). \<^verbatim>\<open>POST /api/progress\<close> is to record the step:
  one row for the pair, carrying the status of the last call. The handler as written
  throws on its lookup and writes nothing: after recording \<^verbatim>\<open>completed\<close> twice for
  \<^verbatim>\<open>(l1, explanation)\<close> on an empty store, both calls have answered with the error and
  the table holds no row for the pair, where the upsert of the specification leaves one
  row with status \<^verbatim>\<open>completed\<close>.
\<close>

theorem post_progress_twice_leaves_no_row:
  "snd (post_progress \<lparr>pb_lesson_id = ''l1'', pb_step_id = ''explanation'',
                       pb_status = ''completed''\<rparr> 1 empty_db)
     = Inl (RangeError ''Too few parameter values were provided'')
   \<and> snd (post_progress \<lparr>pb_lesson_id = ''l1'', pb_step_id = ''explanation'',
                         pb_status = ''completed''\<rparr> 2
            (fst (post_progress \<lparr>pb_lesson_id = ''l1'', pb_step_id = ''explanation'',
                                 pb_status = ''completed''\<rparr> 1 empty_db)))
     = Inl (RangeError ''Too few parameter values were provided'')
   \<and> filter (\<lambda>r. sp_lesson_id r = ''l1'' \<and> sp_step_id r = ''explanation'')
       (step_progress
         (fst (post_progress \<lparr>pb_lesson_id = ''l1'', pb_step_id = ''explanation'',
                              pb_status = ''completed''\<rparr> 2
            (fst (post_progress \<lparr>pb_lesson_id = ''l1'', pb_step_id = ''explanation'',
                                 pb_status = ''completed''\<rparr> 1 empty_db))))) = []
   \<and> map sp_status
       (filter (\<lambda>r. sp_lesson_id r = ''l1'' \<and> sp_step_id r = ''explanation'')
          (step_progress
            (spec_recordStep ''l1'' ''explanation'' ''completed'' 2
               (spec_recordStep ''l1'' ''explanation'' ''completed'' 1 empty_db)))) =
       [''completed'']"
  by (simp add: post_progress_throws empty_db_def spec_recordStep_def update_step_def)

section \<open>Rounding to binary64\<close>

lemma fl_1: "fl 1 = 1" by code_simp

lemma fl_100: "fl 100 = 100" by code_simp

lemma bitlen_powi_bounds:
  assumes "0 < (p::int)"
  shows "(2::rat) powi (bitlen p - 1) \<le> of_int p" "of_int p < (2::rat) powi (bitlen p)"
proof -
  have b: "2 ^ nat (bitlen p - 1) \<le> p" "p < 2 ^ nat (bitlen p)"
    using bitlen_bounds[OF assms] by auto
  have ge: "1 \<le> bitlen p" using assms by (auto simp: bitlen_alt_def)
  have "(of_int (2 ^ nat (bitlen p - 1)) :: rat) \<le> of_int p"
    using b(1) by (simp only: of_int_le_iff)
  then show "(2::rat) powi (bitlen p - 1) \<le> of_int p"
    using ge by (simp add: power_int_def)
  have "(of_int p :: rat) < of_int (2 ^ nat (bitlen p))"
    using b(2) by (simp only: of_int_less_iff)
  then show "of_int p < (2::rat) powi (bitlen p)"
    using ge by (simp add: power_int_def)
qed

lemma expo_bounds:
  assumes "0 < x"
  shows "2 powi (expo x) \<le> x" "x < 2 powi (expo x + 1)"
proof -
  obtain p q where pq: "quotient_of x = (p, q)" by force
  have q: "0 < q" using quotient_of_denom_pos[OF pq] .
  have x: "x = of_int p / of_int q" using quotient_of_div[OF pq] .
  have p: "0 < p" using assms q unfolding x by (simp add: zero_less_divide_iff)
  let ?k = "bitlen p - bitlen q"
  note bp = bitlen_powi_bounds[OF p] and bq = bitlen_powi_bounds[OF q]
  have qpos: "(0::rat) < of_int q" using q by simp
  have lo: "2 powi (?k - 1) \<le> x"
  proof -
    have "(2::rat) powi (?k - 1) * of_int q \<le> 2 powi (?k - 1) * 2 powi (bitlen q)"
      using bq(2) by (intro mult_left_mono) auto
    also have "\<dots> = 2 powi (bitlen p - 1)"
      by (simp add: power_int_add[symmetric])
    also have "\<dots> \<le> of_int p" using bp(1) .
    finally show ?thesis unfolding x using qpos by (simp add: pos_le_divide_eq)
  qed
  have hi: "x < 2 powi (?k + 1)"
  proof -
    have "of_int p < (2::rat) powi (bitlen p)" using bp(2) .
    also have "\<dots> = 2 powi (?k + 1) * 2 powi (bitlen q - 1)"
      by (simp add: power_int_add[symmetric])
    also have "\<dots> \<le> 2 powi (?k + 1) * of_int q"
      using bq(1) by (intro mult_left_mono) auto
    finally show ?thesis unfolding x using qpos by (simp add: pos_divide_less_eq)
  qed
  have e: "expo x = (if 2 powi ?k \<le> x then ?k else ?k - 1)"
    by (simp add: expo_def pq Let_def)
  show "2 powi (expo x) \<le> x" using lo by (simp add: e)
  show "x < 2 powi (expo x + 1)" using hi by (auto simp add: e not_le)
qed

lemma floor_le_rne: "\<lfloor>y\<rfloor> \<le> rne y"
  by (simp add: rne_def Let_def)

lemma rne_le_floor_Suc: "rne y \<le> \<lfloor>y\<rfloor> + 1"
  by (simp add: rne_def Let_def)

lemma rne_ge: "of_int n \<le> y \<Longrightarrow> n \<le> rne y"
proof -
  assume "of_int n \<le> y"
  then have "n \<le> \<lfloor>y\<rfloor>" by (simp add: le_floor_iff)
  then show ?thesis using floor_le_rne[of y] by linarith
qed

lemma rne_le: "y \<le> of_int n \<Longrightarrow> rne y \<le> n"
proof -
  assume a: "y \<le> of_int n"
  have f: "\<lfloor>y\<rfloor> \<le> n" using floor_mono[OF a] by simp
  show ?thesis
  proof (cases "y = of_int \<lfloor>y\<rfloor>")
    case True
    then have "rne y = \<lfloor>y\<rfloor>" by (simp add: rne_def Let_def)
    with f show ?thesis by simp
  next
    case False
    then have "of_int \<lfloor>y\<rfloor> < y" using of_int_floor_le[of y] by linarith
    then have "(of_int \<lfloor>y\<rfloor> :: rat) < of_int n" using a by linarith
    then have "\<lfloor>y\<rfloor> < n" by (simp only: of_int_less_iff)
    moreover have "rne y \<le> \<lfloor>y\<rfloor> + 1" by (simp add: rne_def Let_def)
    ultimately show ?thesis by linarith
  qed
qed

lemma rne_mono: "x \<le> y \<Longrightarrow> rne x \<le> rne y"
proof -
  assume a: "x \<le> y"
  have fm: "\<lfloor>x\<rfloor> \<le> \<lfloor>y\<rfloor>" using a by (rule floor_mono)
  show ?thesis
  proof (cases "\<lfloor>x\<rfloor> = \<lfloor>y\<rfloor>")
    case True
    then show ?thesis using a by (auto simp: rne_def Let_def)
  next
    case False
    then have "\<lfloor>x\<rfloor> + 1 \<le> \<lfloor>y\<rfloor>" using fm by linarith
    moreover have "rne x \<le> \<lfloor>x\<rfloor> + 1" by (simp add: rne_def Let_def)
    moreover have "\<lfloor>y\<rfloor> \<le> rne y" by (simp add: rne_def Let_def)
    ultimately show ?thesis by linarith
  qed
qed


lemma fl_pos_eq: "0 < x \<Longrightarrow> fl x = of_int (rne (x / 2 powi (expo x - 52))) * 2 powi (expo x - 52)"
  by (simp add: fl_def)

lemma fl_lower: assumes "0 < x" shows "2 powi (expo x) \<le> fl x"
proof -
  let ?u = "(2::rat) powi (expo x - 52)"
  define M :: int where "M = 2 ^ 52"
  have u: "0 < ?u" by simp
  have e: "of_int M * ?u = 2 powi (expo x)"
    unfolding M_def by (simp add: power_int_diff)
  have "of_int M * ?u \<le> x" using expo_bounds(1)[OF assms] e by simp
  then have "of_int M \<le> x / ?u"
    using u by (simp only: pos_le_divide_eq)
  then have "M \<le> rne (x / ?u)" by (rule rne_ge)
  then have "(of_int M :: rat) \<le> of_int (rne (x / ?u))" by (simp only: of_int_le_iff)
  then have "of_int M * ?u \<le> of_int (rne (x / ?u)) * ?u"
    using u by (intro mult_right_mono) auto
  then show ?thesis unfolding e fl_pos_eq[OF assms] .
qed

lemma fl_upper: assumes "0 < x" shows "fl x \<le> 2 powi (expo x + 1)"
proof -
  let ?u = "(2::rat) powi (expo x - 52)"
  define M :: int where "M = 2 ^ 53"
  have u: "0 < ?u" by simp
  have e: "of_int M * ?u = 2 powi (expo x + 1)"
    unfolding M_def by (simp add: power_int_diff power_int_add)
  have "x \<le> of_int M * ?u" using expo_bounds(2)[OF assms] e by simp
  then have "x / ?u \<le> of_int M"
    using u by (simp only: pos_divide_le_eq)
  then have "rne (x / ?u) \<le> M" by (rule rne_le)
  then have "(of_int (rne (x / ?u)) :: rat) \<le> of_int M" by (simp only: of_int_le_iff)
  then have "of_int (rne (x / ?u)) * ?u \<le> of_int M * ?u"
    using u by (intro mult_right_mono) auto
  then show ?thesis unfolding e fl_pos_eq[OF assms] .
qed

lemma expo_mono: assumes "0 < x" "x \<le> y" shows "expo x \<le> expo y"
proof (rule ccontr)
  assume "\<not> expo x \<le> expo y"
  then have "expo y + 1 \<le> expo x" by simp
  then have "(2::rat) powi (expo y + 1) \<le> 2 powi (expo x)"
    by (intro power_int_increasing) auto
  moreover have "0 < y" using assms by simp
  ultimately show False
    using expo_bounds(1)[OF assms(1)] expo_bounds(2)[OF \<open>0 < y\<close>] assms(2) by linarith
qed

lemma fl_nonneg: "0 \<le> x \<Longrightarrow> 0 \<le> fl x"
proof (cases "x = 0")
  case True then show ?thesis by (simp add: fl_def)
next
  case False
  assume "0 \<le> x"
  with False have p: "0 < x" by simp
  have "(0::rat) \<le> 2 powi (expo x)" by simp
  then show ?thesis using fl_lower[OF p] by linarith
qed

lemma fl_mono: assumes "0 \<le> x" "x \<le> y" shows "fl x \<le> fl y"
proof (cases "x = 0")
  case True
  then show ?thesis using fl_nonneg[of y] assms by (simp add: fl_def)
next
  case False
  then have px: "0 < x" using assms by simp
  then have py: "0 < y" using assms by simp
  show ?thesis
  proof (cases "expo x = expo y")
    case True
    let ?u = "(2::rat) powi (expo y - 52)"
    have u: "0 < ?u" by simp
    have "x / ?u \<le> y / ?u" using assms(2) u by (simp add: divide_right_mono)
    then have "rne (x / ?u) \<le> rne (y / ?u)" by (rule rne_mono)
    then have "(of_int (rne (x / ?u)) :: rat) \<le> of_int (rne (y / ?u))" by (simp only: of_int_le_iff)
    then have "of_int (rne (x / ?u)) * ?u \<le> of_int (rne (y / ?u)) * ?u"
      using u by (intro mult_right_mono) auto
    then show ?thesis by (simp add: fl_pos_eq[OF px] fl_pos_eq[OF py] True)
  next
    case False
    then have "expo x + 1 \<le> expo y" using expo_mono[OF px assms(2)] by simp
    then have "(2::rat) powi (expo x + 1) \<le> 2 powi (expo y)"
      by (intro power_int_increasing) auto
    then show ?thesis using fl_upper[OF px] fl_lower[OF py] by linarith
  qed
qed

section \<open>Progress of a course\<close>

lemma fl_0: "fl 0 = 0" by (simp add: fl_def)

lemma fl_5: "fl 5 = 5" by code_simp

lemma math_round_0: "math_round 0 = 0" by code_simp

lemma math_round_100: "math_round 100 = 100" by code_simp

lemma math_round_mono: "x \<le> y \<Longrightarrow> math_round x \<le> math_round y"
  unfolding math_round_def by (intro floor_mono) simp

lemma course_progress_no_lessons: "course_progress [] tbl = 0"
  by (simp add: course_progress_def js_mul_def fl_0)

lemma totalSteps_pos:
  assumes "ids \<noteq> []"
  shows "5 \<le> js_mul (of_nat (length ids)) 5"
proof -
  have "1 \<le> length ids" using assms by (cases ids) auto
  then have "(1::rat) \<le> of_nat (length ids)" by (metis of_nat_1 of_nat_le_iff)
  then have "fl 5 \<le> fl (of_nat (length ids) * 5)" by (intro fl_mono) auto
  then show ?thesis by (simp add: js_mul_def fl_5)
qed

lemma course_progress_nonneg: "0 \<le> course_progress ids tbl"
proof (cases "ids = []")
  case True
  then show ?thesis by (simp add: course_progress_no_lessons)
next
  case False
  let ?T = "js_mul (of_nat (length ids)) 5"
  let ?C = "js_of_nat (count_completed ids tbl)"
  have T: "0 < ?T" using totalSteps_pos[OF False] by linarith
  have C: "0 \<le> ?C" unfolding js_of_nat_def by (intro fl_nonneg) simp
  have "0 \<le> ?C / ?T" using T C by simp
  then have "0 \<le> js_div ?C ?T" unfolding js_div_def by (rule fl_nonneg)
  then have "0 \<le> js_div ?C ?T * 100" by simp
  then have "0 \<le> js_mul (js_div ?C ?T) 100" unfolding js_mul_def by (rule fl_nonneg)
  then have "math_round 0 \<le> math_round (js_mul (js_div ?C ?T) 100)" by (rule math_round_mono)
  then show ?thesis using False T by (simp add: course_progress_def Let_def math_round_0)
qed

lemma course_progress_none_completed:
  assumes "count_completed ids tbl = 0"
  shows "course_progress ids tbl = 0"
  using assms by (simp add: course_progress_def Let_def js_of_nat_def js_div_def js_mul_def fl_0 math_round_0)

lemma course_progress_le_100:
  assumes "count_completed ids tbl \<le> 5 * length ids"
  shows "course_progress ids tbl \<le> 100"
proof (cases "ids = []")
  case True
  then show ?thesis by (simp add: course_progress_no_lessons)
next
  case False
  let ?T = "js_mul (of_nat (length ids)) 5"
  let ?C = "js_of_nat (count_completed ids tbl)"
  have T: "0 < ?T" using totalSteps_pos[OF False] by linarith
  have "rat_of_nat (count_completed ids tbl) \<le> rat_of_nat (5 * length ids)"
    using assms by (simp only: of_nat_le_iff)
  then have "rat_of_nat (count_completed ids tbl) \<le> of_nat (length ids) * 5" by simp
  then have CT: "?C \<le> ?T" unfolding js_of_nat_def js_mul_def by (intro fl_mono) auto
  have C: "0 \<le> ?C" unfolding js_of_nat_def by (intro fl_nonneg) simp
  have q0: "0 \<le> ?C / ?T" using T C by simp
  have "?C / ?T \<le> 1" using CT T by (simp add: pos_divide_le_eq)
  then have "fl (?C / ?T) \<le> fl 1" using q0 by (intro fl_mono) auto
  then have q1: "js_div ?C ?T \<le> 1" by (simp add: js_div_def fl_1)
  have q2: "0 \<le> js_div ?C ?T" unfolding js_div_def using q0 by (rule fl_nonneg)
  have "fl (js_div ?C ?T * 100) \<le> fl 100" using q1 q2 by (intro fl_mono) auto
  then have "js_mul (js_div ?C ?T) 100 \<le> 100" by (simp add: js_mul_def fl_100)
  then have "math_round (js_mul (js_div ?C ?T) 100) \<le> math_round 100" by (rule math_round_mono)
  then show ?thesis using False T by (simp add: course_progress_def Let_def math_round_100)
qed

lemma count_completed_bound:
  assumes d: "distinct (map (\<lambda>r. (sp_lesson_id r, sp_step_id r)) tbl)"
    and five: "\<forall>r \<in> set tbl. sp_lesson_id r \<in> set ids \<and> sp_status r = ''completed''
                 \<longrightarrow> sp_step_id r \<in> set step_ids"
  shows "count_completed ids tbl \<le> 5 * length ids"
proof -
  let ?key = "\<lambda>r. (sp_lesson_id r, sp_step_id r)"
  let ?P = "\<lambda>r. sp_lesson_id r \<in> set ids \<and> sp_status r = ''completed''"
  have dist: "distinct (map ?key (filter ?P tbl))"
    using d by (rule distinct_map_filter)
  have sub: "set (map ?key (filter ?P tbl)) \<subseteq> set ids \<times> set step_ids"
    using five by auto
  have "count_completed ids tbl = length (map ?key (filter ?P tbl))"
    by (simp add: count_completed_def)
  also have "\<dots> = card (set (map ?key (filter ?P tbl)))"
    using dist by (simp only: distinct_card)
  also have "\<dots> \<le> card (set ids \<times> set step_ids)"
    using sub by (intro card_mono) auto
  also have "\<dots> = card (set ids) * card (set step_ids)"
    by (rule card_cartesian_product)
  also have "\<dots> \<le> length ids * 5"
  proof -
    have "card (set step_ids) \<le> length step_ids" by (rule card_length)
    also have "\<dots> = 5" by (simp add: step_ids_def)
    finally have "card (set step_ids) \<le> 5" .
    then show ?thesis using card_length[of ids] by (intro mult_le_mono) auto
  qed
  finally show ?thesis by simp
qed

text \<open>
  The scenario of the specification: two lessons, and 0, 3 and 10 completed steps of 10.
\<close>

lemma course_progress_scenario:
  "course_progress [''l1'', ''l2''] [] = 0"
  "course_progress [''l1'', ''l2''] (completed_rows (map (Pair ''l1'') (take 3 step_ids))) = 30"
  "course_progress [''l1'', ''l2''] (completed_rows (List.product [''l1'', ''l2''] step_ids)) = 100"
  by code_simp+

text \<open>
  C2 (the code departs from the claim). The progress of a course is to be
  \<open>round (100 \<times> completed_steps / (lessons_in_course \<times> 5))\<close>. The handler divides first and
  multiplies by 100 afterwards, in binary64: with 23 completed steps of 40 the quotient
  23/40 is not a binary64 value, the product comes out just below 57.5, and the course is
  answered with progress 57, where the formula gives \<open>round 57.5 = 58\<close>.
\<close>

theorem get_courses_progress_23_of_40:
  "map cj_progress (get_courses eight_lessons_db) = [57]
   \<and> count_completed (map l_id (lessons eight_lessons_db)) (step_progress eight_lessons_db) = 23
   \<and> spec_progress (length (lessons eight_lessons_db))
        (count_completed (map l_id (lessons eight_lessons_db))
           (step_progress eight_lessons_db)) = 58"
  by code_simp

text \<open>
  C3, as stated: the progress lies in \<open>[0, 100]\<close> for every table, also one with rows
  whose step is none of the five stages. It does not: a lesson with six completed rows,
  the five stages and one more, has progress 120.
\<close>

theorem course_progress_above_100:
  "\<not> (0 \<le> course_progress [''l1'']
              (completed_rows (map (Pair ''l1'') (step_ids @ [''bonus''])))
       \<and> course_progress [''l1'']
           (completed_rows (map (Pair ''l1'') (step_ids @ [''bonus'']))) \<le> 100)"
  by code_simp

text \<open>
  C3, amended: for every list of lesson ids and every table the progress is at least 0,
  and it is 0 when the table has no completed row for these lessons or there is no
  lesson; it is at most 100 whenever the table has at most one row for each
  (lesson, step) pair and the completed rows of these lessons carry one of the five
  stages.
\<close>

theorem course_progress_range:
  "0 \<le> course_progress ids tbl
   \<and> (count_completed ids tbl = 0 \<or> ids = [] \<longrightarrow> course_progress ids tbl = 0)
   \<and> (distinct (map (\<lambda>r. (sp_lesson_id r, sp_step_id r)) tbl)
      \<and> (\<forall>r \<in> set tbl. sp_lesson_id r \<in> set ids \<and> sp_status r = ''completed''
            \<longrightarrow> sp_step_id r \<in> set step_ids)
      \<longrightarrow> course_progress ids tbl \<le> 100)"
proof (intro conjI impI)
  show "0 \<le> course_progress ids tbl" by (rule course_progress_nonneg)
next
  assume "count_completed ids tbl = 0 \<or> ids = []"
  then show "course_progress ids tbl = 0"
    using course_progress_none_completed[of ids tbl] course_progress_no_lessons[of tbl]
    by blast
next
  assume "distinct (map (\<lambda>r. (sp_lesson_id r, sp_step_id r)) tbl)
      \<and> (\<forall>r \<in> set tbl. sp_lesson_id r \<in> set ids \<and> sp_status r = ''completed''
            \<longrightarrow> sp_step_id r \<in> set step_ids)"
  then have "count_completed ids tbl \<le> 5 * length ids"
    using count_completed_bound[of tbl ids] by blast
  then show "course_progress ids tbl \<le> 100" by (rule course_progress_le_100)
qed

theorem course_progress_range_witness:
  "distinct (map (\<lambda>r. (sp_lesson_id r, sp_step_id r))
      (completed_rows (List.product [''l1'', ''l2''] step_ids)))
   \<and> 0 \<le> course_progress [''l1'', ''l2'']
           (completed_rows (List.product [''l1'', ''l2''] step_ids))
   \<and> course_progress [''l1'', ''l2'']
       (completed_rows (List.product [''l1'', ''l2''] step_ids)) \<le> 100
   \<and> count_completed [''l1'', ''l2''] [] = 0
   \<and> course_progress [''l1'', ''l2''] [] = 0"
proof -
  let ?tbl = "completed_rows (List.product [''l1'', ''l2''] step_ids)"
  have h1: "distinct (map (\<lambda>r. (sp_lesson_id r, sp_step_id r)) ?tbl)"
    by code_simp
  have h2: "\<forall>r \<in> set ?tbl. sp_lesson_id r \<in> set [''l1'', ''l2''] \<and> sp_status r = ''completed''
              \<longrightarrow> sp_step_id r \<in> set step_ids"
    by code_simp
  have h3: "count_completed [''l1'', ''l2''] [] = 0"
    by (simp add: count_completed_def)
  show ?thesis
    using h1 h2 h3 course_progress_range[of "[''l1'', ''l2'']" ?tbl]
      course_progress_range[of "[''l1'', ''l2'']" "[]"]
    by blast
qed

section \<open>Posting a course and reading it back\<close>

lemma id_round_trip_or_else: "id_round_trip posted (or_else posted fresh)"
  by (simp add: id_round_trip_def or_else_def split: option.splits)

lemma lesson_round_trip_row:
  "lesson_round_trip lesson (lesson_row_of (or_else (lb_id lesson) fresh) moduleId lesson)"
  by (simp add: lesson_round_trip_def lesson_row_of_def id_round_trip_or_else)

lemma insert_lesson_Inr:
  "insert_lesson row d = Inr d' \<Longrightarrow> d' = d\<lparr>lessons := lessons d @ [row]\<rparr>"
  by (simp add: insert_lesson_def split: if_splits)

lemma insert_module_Inr:
  "insert_module row d = Inr d' \<Longrightarrow>
     d' = d\<lparr>modules := modules d @ [row]\<rparr> \<and> m_id row \<notin> set (map m_id (modules d))"
  by (simp add: insert_module_def split: if_splits)

lemma insert_course_Inr:
  "insert_course row d = Inr d' \<Longrightarrow>
     d' = d\<lparr>courses := courses d @ [row]\<rparr> \<and> c_id row \<notin> set (map c_id (courses d))"
  by (simp add: insert_course_def split: if_splits)

lemma insert_lessons_success:
  "insert_lessons gen moduleId ls n d = (None, n', d') \<Longrightarrow>
     \<exists>rows. d' = d\<lparr>lessons := lessons d @ rows\<rparr> \<and>
            list_all2 lesson_round_trip ls rows \<and>
            (\<forall>r \<in> set rows. l_module_id r = moduleId)"
proof (induction ls arbitrary: n d)
  case Nil
  then have "d' = d\<lparr>lessons := lessons d @ []\<rparr>" by simp
  then show ?case by (intro exI[of _ "[]"]) simp
next
  case (Cons lesson rest)
  let ?row = "lesson_row_of (or_else (lb_id lesson) (''l'' @ gen n)) moduleId lesson"
  from Cons.prems obtain d1 where
    i: "insert_lesson ?row d = Inr d1" and
    r: "insert_lessons gen moduleId rest (Suc n) d1 = (None, n', d')"
    by (auto simp: Let_def split: sum.splits)
  have d1: "d1 = d\<lparr>lessons := lessons d @ [?row]\<rparr>" using insert_lesson_Inr[OF i] .
  from Cons.IH[OF r] obtain rows where
    rows: "d' = d1\<lparr>lessons := lessons d1 @ rows\<rparr>" "list_all2 lesson_round_trip rest rows"
      "\<forall>r \<in> set rows. l_module_id r = moduleId"
    by blast
  have "d' = d\<lparr>lessons := lessons d @ (?row # rows)\<rparr>"
    using rows(1) d1 by simp
  moreover have "list_all2 lesson_round_trip (lesson # rest) (?row # rows)"
    using rows(2) by (simp add: lesson_round_trip_row)
  moreover have "\<forall>r \<in> set (?row # rows). l_module_id r = moduleId"
    using rows(3) by (simp add: lesson_row_of_def)
  ultimately show ?case by blast
qed

lemma insert_modules_success:
  "insert_modules gen courseId ms n d = (None, n', d') \<Longrightarrow>
     \<exists>ps. d' = d\<lparr>modules := modules d @ map fst ps,
                   lessons := lessons d @ concat (map snd ps)\<rparr> \<and>
           list_all2 (module_rows_ok courseId) ms ps \<and>
           distinct (map (m_id \<circ> fst) ps) \<and>
           set (map (m_id \<circ> fst) ps) \<inter> set (map m_id (modules d)) = {}"
proof (induction ms arbitrary: n d)
  case Nil
  then have "d' = d\<lparr>modules := modules d @ map fst [], lessons := lessons d @ concat (map snd [])\<rparr>"
    by simp
  then show ?case by (intro exI[of _ "[]"]) simp
next
  case (Cons md rest)
  let ?row = "module_row_of (or_else (mb_id md) (''m'' @ gen n)) courseId md"
  have rid: "m_id ?row = or_else (mb_id md) (''m'' @ gen n)"
    by (simp add: module_row_of_def)
  from Cons.prems obtain d1 n1 d2 where
    i: "insert_module ?row d = Inr d1" and
    l: "insert_lessons gen (m_id ?row) (mb_lessons md) (Suc n) d1 = (None, n1, d2)" and
    r: "insert_modules gen courseId rest n1 d2 = (None, n', d')"
    unfolding rid by (auto simp: Let_def split: sum.splits prod.splits option.splits)
  have d1: "d1 = d\<lparr>modules := modules d @ [?row]\<rparr>"
    and fresh: "m_id ?row \<notin> set (map m_id (modules d))"
    using insert_module_Inr[OF i] by blast+
  from insert_lessons_success[OF l] obtain rows where
    rows: "d2 = d1\<lparr>lessons := lessons d1 @ rows\<rparr>"
      "list_all2 lesson_round_trip (mb_lessons md) rows"
      "\<forall>r \<in> set rows. l_module_id r = m_id ?row"
    by blast
  from Cons.IH[OF r] obtain ps where
    ps: "d' = d2\<lparr>modules := modules d2 @ map fst ps,
                   lessons := lessons d2 @ concat (map snd ps)\<rparr>"
      "list_all2 (module_rows_ok courseId) rest ps"
      "distinct (map (m_id \<circ> fst) ps)"
      "set (map (m_id \<circ> fst) ps) \<inter> set (map m_id (modules d2)) = {}"
    by blast
  have m2: "modules d2 = modules d @ [?row]" using rows(1) d1 by simp
  let ?ps = "(?row, rows) # ps"
  have "d' = d\<lparr>modules := modules d @ map fst ?ps,
                 lessons := lessons d @ concat (map snd ?ps)\<rparr>"
    using ps(1) rows(1) d1 by simp
  moreover have "list_all2 (module_rows_ok courseId) (md # rest) ?ps"
    using ps(2) rows(2,3) by (simp add: module_rows_ok_def module_row_of_def id_round_trip_or_else)
  moreover have "distinct (map (m_id \<circ> fst) ?ps)"
    using ps(3,4) m2 by auto
  moreover have "set (map (m_id \<circ> fst) ?ps) \<inter> set (map m_id (modules d)) = {}"
    using ps(4) m2 fresh by auto
  ultimately show ?case by blast
qed

lemma distinct_map_head:
  assumes "distinct (map f (q # ps))" and "r \<in> set ps"
  shows "f r \<noteq> f q"
proof -
  have "f q \<notin> set (map f ps)" using assms(1) by simp
  moreover have "f r \<in> set (map f ps)" using assms(2) by simp
  ultimately show ?thesis by metis
qed

lemma filter_own_lessons:
  assumes "distinct (map (m_id \<circ> fst) ps)"
    and "\<forall>p \<in> set ps. \<forall>l \<in> set (snd p). l_module_id l = m_id (fst p)"
    and "p \<in> set ps"
  shows "filter (\<lambda>l. l_module_id l = m_id (fst p)) (concat (map snd ps)) = snd p"
  using assms
proof (induction ps)
  case Nil
  then show ?case by simp
next
  case (Cons q ps)
  show ?case
  proof (cases "p = q")
    case True
    have own: "filter (\<lambda>l. l_module_id l = m_id (fst q)) (snd q) = snd q"
      using Cons.prems(2) by (simp add: filter_id_conv)
    have "\<forall>l \<in> set (concat (map snd ps)). l_module_id l \<noteq> m_id (fst q)"
    proof
      fix l assume "l \<in> set (concat (map snd ps))"
      then obtain r where r: "r \<in> set ps" "l \<in> set (snd r)" by auto
      then have "l_module_id l = m_id (fst r)" using Cons.prems(2) by simp
      moreover have "m_id (fst r) \<noteq> m_id (fst q)"
        using distinct_map_head[OF Cons.prems(1) r(1)] by simp
      ultimately show "l_module_id l \<noteq> m_id (fst q)" by simp
    qed
    then have "filter (\<lambda>l. l_module_id l = m_id (fst q)) (concat (map snd ps)) = []"
      by (simp add: filter_empty_conv)
    then show ?thesis using own True by simp
  next
    case False
    then have p: "p \<in> set ps" using Cons.prems(3) by simp
    then have "m_id (fst p) \<noteq> m_id (fst q)"
      using distinct_map_head[OF Cons.prems(1)] by simp
    then have "filter (\<lambda>l. l_module_id l = m_id (fst p)) (snd q) = []"
      using Cons.prems(2) by (auto simp: filter_empty_conv)
    moreover have "filter (\<lambda>l. l_module_id l = m_id (fst p)) (concat (map snd ps)) = snd p"
      using Cons.IH Cons.prems p by simp
    ultimately show ?thesis by simp
  qed
qed


lemma full_module_new:
  assumes "set (map l_module_id ls0) \<subseteq> set (map m_id ms0)"
    and "set (map (m_id \<circ> fst) ps) \<inter> set (map m_id ms0) = {}"
    and "distinct (map (m_id \<circ> fst) ps)"
    and "\<forall>p \<in> set ps. \<forall>l \<in> set (snd p). l_module_id l = m_id (fst p)"
    and "lessons d' = ls0 @ concat (map snd ps)"
    and "p \<in> set ps"
  shows "full_module d' (fst p) = module_json_of p"
proof -
  have "(m_id \<circ> fst) p \<in> set (map (m_id \<circ> fst) ps)" using assms(6) by (rule imageI[of p "set ps" "m_id \<circ> fst", folded set_map])
  then have new: "m_id (fst p) \<notin> set (map m_id ms0)" using assms(2) by auto
  have "\<forall>l \<in> set ls0. l_module_id l \<noteq> m_id (fst p)"
  proof
    fix l assume "l \<in> set ls0"
    then have "l_module_id l \<in> set (map l_module_id ls0)" by simp
    then have "l_module_id l \<in> set (map m_id ms0)" using assms(1) by blast
    then show "l_module_id l \<noteq> m_id (fst p)" using new by metis
  qed
  then have "filter (\<lambda>l. l_module_id l = m_id (fst p)) ls0 = []"
    by (simp add: filter_empty_conv)
  then have "filter (\<lambda>l. l_module_id l = m_id (fst p)) (lessons d') = snd p"
    using filter_own_lessons[OF assms(3,4,6)] assms(5) by simp
  then show ?thesis by (simp add: full_module_def module_json_of_def)
qed

lemma module_round_trip_json:
  "module_rows_ok courseId posted p \<Longrightarrow> module_round_trip posted (module_json_of p)"
  by (simp add: module_rows_ok_def module_round_trip_def module_json_of_def)

lemma post_course_success:
  assumes "post_course gen body d = (d', Inr cid)"
  shows "cid = ''c'' @ gen 0" and
    "\<exists>d1 n. insert_course (course_row_of cid body) d = Inr d1 \<and>
            insert_modules gen cid (cb_modules body) 1 d1 = (None, n, d')"
proof -
  let ?cid = "''c'' @ gen 0"
  obtain d1 where i: "insert_course (course_row_of ?cid body) d = Inr d1"
    using assms unfolding post_course_def Let_def
    by (cases "insert_course (course_row_of ?cid body) d") simp_all
  obtain r n d2 where m: "insert_modules gen ?cid (cb_modules body) 1 d1 = (r, n, d2)"
    by (cases "insert_modules gen ?cid (cb_modules body) 1 d1") blast
  have res: "post_course gen body d = (case r of Some e \<Rightarrow> (d2, Inl e) | None \<Rightarrow> (d2, Inr ?cid))"
    using i m by (simp add: post_course_def Let_def split: option.splits)
  have r: "r = None" using assms res by (cases r) simp_all
  then have "d2 = d'" and c: "cid = ?cid" using assms res by simp_all
  then show "cid = ''c'' @ gen 0" by simp
  show "\<exists>d1 n. insert_course (course_row_of cid body) d = Inr d1 \<and>
            insert_modules gen cid (cb_modules body) 1 d1 = (None, n, d')"
    using i m r \<open>d2 = d'\<close> c by blast
qed

text \<open>
  The foreign keys hold in every store the handlers make from a store where they hold,
  also when a request fails half-way.
\<close>

lemma insert_lessons_fk:
  "fk_ok d \<Longrightarrow> moduleId \<in> set (map m_id (modules d)) \<Longrightarrow>
   insert_lessons gen moduleId ls n d = (r, n', d') \<Longrightarrow>
     fk_ok d' \<and> modules d' = modules d \<and> courses d' = courses d"
proof (induction ls arbitrary: n d)
  case Nil
  then show ?case by simp
next
  case (Cons lesson rest)
  let ?row = "lesson_row_of (or_else (lb_id lesson) (''l'' @ gen n)) moduleId lesson"
  show ?case
  proof (cases "insert_lesson ?row d")
    case (Inl e)
    then show ?thesis using Cons.prems by (simp add: Let_def)
  next
    case (Inr d1)
    have d1: "d1 = d\<lparr>lessons := lessons d @ [?row]\<rparr>" using insert_lesson_Inr[OF Inr] .
    have "l_module_id ?row = moduleId" by (simp add: lesson_row_of_def)
    then have fk1: "fk_ok d1" using Cons.prems(1,2) d1 by (simp add: fk_ok_def)
    have m1: "moduleId \<in> set (map m_id (modules d1))" using Cons.prems(2) d1 by simp
    have "insert_lessons gen moduleId rest (Suc n) d1 = (r, n', d')"
      using Cons.prems(3) Inr by (simp add: Let_def)
    from Cons.IH[OF fk1 m1 this] show ?thesis using d1 by simp
  qed
qed

lemma insert_modules_fk:
  "fk_ok d \<Longrightarrow> courseId \<in> set (map c_id (courses d)) \<Longrightarrow>
   insert_modules gen courseId ms n d = (r, n', d') \<Longrightarrow>
     fk_ok d' \<and> courses d' = courses d"
proof (induction ms arbitrary: n d)
  case Nil
  then show ?case by simp
next
  case (Cons md rest)
  let ?row = "module_row_of (or_else (mb_id md) (''m'' @ gen n)) courseId md"
  have rid: "m_id ?row = or_else (mb_id md) (''m'' @ gen n)" "m_course_id ?row = courseId"
    by (simp_all add: module_row_of_def)
  show ?case
  proof (cases "insert_module ?row d")
    case (Inl e)
    then show ?thesis using Cons.prems by (simp add: Let_def)
  next
    case (Inr d1)
    have d1: "d1 = d\<lparr>modules := modules d @ [?row]\<rparr>" using insert_module_Inr[OF Inr] by blast
    have fk1: "fk_ok d1" using Cons.prems(1,2) d1 rid(2) by (auto simp: fk_ok_def)
    have m1: "m_id ?row \<in> set (map m_id (modules d1))" using d1 by simp
    obtain r1 n1 d2 where
      l: "insert_lessons gen (m_id ?row) (mb_lessons md) (Suc n) d1 = (r1, n1, d2)"
      by (cases "insert_lessons gen (m_id ?row) (mb_lessons md) (Suc n) d1") blast
    have d2: "fk_ok d2" "courses d2 = courses d"
      using insert_lessons_fk[OF fk1 m1 l] d1 by simp_all
    show ?thesis
    proof (cases r1)
      case (Some e)
      then show ?thesis using Cons.prems(3) Inr l d2 unfolding rid(1)
        by (simp add: Let_def)
    next
      case None
      then have "insert_modules gen courseId rest n1 d2 = (r, n', d')"
        using Cons.prems(3) Inr l unfolding rid(1) by (simp add: Let_def)
      moreover have "courseId \<in> set (map c_id (courses d2))" using Cons.prems(2) d2(2) by simp
      ultimately show ?thesis using Cons.IH[OF d2(1)] d2(2) by simp
    qed
  qed
qed

lemma post_course_fk: "fk_ok d \<Longrightarrow> fk_ok (fst (post_course gen body d))"
proof -
  assume fk: "fk_ok d"
  let ?cid = "''c'' @ gen 0"
  show ?thesis
  proof (cases "insert_course (course_row_of ?cid body) d")
    case (Inl e)
    then show ?thesis using fk by (simp add: post_course_def Let_def)
  next
    case (Inr d1)
    have d1: "d1 = d\<lparr>courses := courses d @ [course_row_of ?cid body]\<rparr>"
      using insert_course_Inr[OF Inr] by blast
    have fk1: "fk_ok d1" using fk d1 by (auto simp: fk_ok_def)
    have c1: "?cid \<in> set (map c_id (courses d1))" using d1 by (simp add: course_row_of_def)
    obtain r n d2 where m: "insert_modules gen ?cid (cb_modules body) 1 d1 = (r, n, d2)"
      by (cases "insert_modules gen ?cid (cb_modules body) 1 d1") blast
    have "fk_ok d2" using insert_modules_fk[OF fk1 c1 m] by simp
    then show ?thesis using Inr m by (simp add: post_course_def Let_def split: option.splits)
  qed
qed

lemma other_handlers_fk:
  "fk_ok d \<Longrightarrow> fk_ok (fst (post_progress pbody now d))"
  "fk_ok d \<Longrightarrow> fk_ok (fst (get_settings d))"
  "fk_ok d \<Longrightarrow> fk_ok (fst (post_settings sbody d))"
  by (auto simp: fk_ok_def post_progress_throws get_settings_def insert_default_settings_def
      post_settings_def update_settings_def split: option.splits)

text \<open>
  C7, as stated: what was posted comes back, with ids assigned by the server only when
  the request has none. The id of the course is assigned by the server also when the
  request has one: a course posted with the id \<^verbatim>\<open>c9\<close> comes back with the id made from
  the clock.
\<close>

theorem post_course_ignores_posted_course_id:
  "cb_id posted_course = Some ''c9''
   \<and> snd (post_course request_ids posted_course empty_db) = Inr ''c1700000000000''
   \<and> map c_id (get_courses (fst (post_course request_ids posted_course empty_db))) =
       [''c1700000000000'']"
  by code_simp

text \<open>
  C7, amended: when \<^verbatim>\<open>POST /api/courses\<close> accepts a body, on a store whose foreign keys
  hold, \<^verbatim>\<open>GET /api/courses\<close> answers exactly one course with the id the post has
  answered. This id is made by the server, whatever the body carries. The course has the
  posted title and description, and its modules are the posted ones in the posted order:
  each with the posted title and its lessons in the posted order, each lesson with the
  posted title, concept, example, guided and independent practice and language. A module
  or a lesson has the posted id when one was posted, and an id made by the server only
  when the request has none (a missing or empty id).
\<close>

theorem post_course_round_trip:
  assumes fk: "fk_ok d" and post: "post_course gen body d = (d', Inr cid)"
  shows "\<exists>cj. filter (\<lambda>c. c_id c = cid) (get_courses d') = [cj]
            \<and> c_id cj = ''c'' @ gen 0
            \<and> c_title cj = cb_title body \<and> c_description cj = cb_description body
            \<and> list_all2 module_round_trip (cb_modules body) (cj_modules cj)"
proof -
  let ?row = "course_row_of cid body"
  have cid: "cid = ''c'' @ gen 0" using post_course_success(1)[OF post] .
  from post_course_success(2)[OF post] obtain d1 n where
    i: "insert_course ?row d = Inr d1" and
    m: "insert_modules gen cid (cb_modules body) 1 d1 = (None, n, d')"
    by blast
  have row: "c_id ?row = cid" "c_title ?row = cb_title body"
    "c_description ?row = cb_description body"
    by (simp_all add: course_row_of_def)
  have d1: "d1 = d\<lparr>courses := courses d @ [?row]\<rparr>"
    and fresh: "cid \<notin> set (map c_id (courses d))"
    using insert_course_Inr[OF i] row(1) by auto
  from insert_modules_success[OF m] obtain ps where
    ps: "d' = d1\<lparr>modules := modules d1 @ map fst ps,
                   lessons := lessons d1 @ concat (map snd ps)\<rparr>"
      "list_all2 (module_rows_ok cid) (cb_modules body) ps"
      "distinct (map (m_id \<circ> fst) ps)"
      "set (map (m_id \<circ> fst) ps) \<inter> set (map m_id (modules d1)) = {}"
    by blast
  have tables: "courses d' = courses d @ [?row]" "modules d' = modules d @ map fst ps"
    "lessons d' = lessons d @ concat (map snd ps)"
    using ps(1) d1 by simp_all
  have each: "\<forall>p \<in> set ps. m_course_id (fst p) = cid \<and>
                (\<forall>l \<in> set (snd p). l_module_id l = m_id (fst p))"
  proof
    fix p assume "p \<in> set ps"
    then obtain k where k: "k < length ps" "ps ! k = p" by (auto simp: in_set_conv_nth)
    then have "module_rows_ok cid (cb_modules body ! k) p"
      using ps(2) by (auto simp: list_all2_conv_all_nth)
    then show "m_course_id (fst p) = cid \<and> (\<forall>l \<in> set (snd p). l_module_id l = m_id (fst p))"
      by (simp add: module_rows_ok_def)
  qed
  have old_mods: "filter (\<lambda>m. m_course_id m = cid) (modules d) = []"
  proof -
    have "\<forall>m \<in> set (modules d). m_course_id m \<noteq> cid"
    proof
      fix m assume "m \<in> set (modules d)"
      then have "m_course_id m \<in> set (map m_course_id (modules d))" by simp
      then have "m_course_id m \<in> set (map c_id (courses d))"
        using fk unfolding fk_ok_def by blast
      then show "m_course_id m \<noteq> cid" using fresh by metis
    qed
    then show ?thesis by (simp add: filter_empty_conv)
  qed
  have new_mods: "filter (\<lambda>m. m_course_id m = cid) (map fst ps) = map fst ps"
    using each by (simp add: filter_id_conv)
  have mods: "filter (\<lambda>m. m_course_id m = cid) (modules d') = map fst ps"
    using old_mods new_mods tables(2) by simp
  have full: "map (full_module d') (map fst ps) = map module_json_of ps"
  proof -
    have "\<forall>p \<in> set ps. full_module d' (fst p) = module_json_of p"
    proof
      fix p assume p: "p \<in> set ps"
      have a: "set (map l_module_id (lessons d)) \<subseteq> set (map m_id (modules d))"
        using fk by (simp add: fk_ok_def)
      have b: "set (map (m_id \<circ> fst) ps) \<inter> set (map m_id (modules d)) = {}"
        using ps(4) d1 by simp
      have c: "\<forall>p \<in> set ps. \<forall>l \<in> set (snd p). l_module_id l = m_id (fst p)"
        using each by blast
      show "full_module d' (fst p) = module_json_of p"
        using full_module_new[OF a b ps(3) c tables(3) p] .
    qed
    then show ?thesis by simp
  qed
  have cj_mods: "cj_modules (full_course d' ?row) = map module_json_of ps"
    using mods full row(1) by (simp add: full_course_def Let_def)
  have rt: "list_all2 module_round_trip (cb_modules body) (map module_json_of ps)"
    using ps(2) by (simp add: list_all2_map2 list_all2_mono module_round_trip_json)
  have ids: "\<And>x. c_id (full_course d' x) = c_id x"
    by (simp add: full_course_def Let_def)
  have "\<forall>x \<in> set (courses d). c_id x \<noteq> cid"
  proof
    fix x assume "x \<in> set (courses d)"
    then have "c_id x \<in> set (map c_id (courses d))" by simp
    then show "c_id x \<noteq> cid" using fresh by metis
  qed
  then have old_courses: "filter (\<lambda>c. c_id c = cid) (map (full_course d') (courses d)) = []"
    by (simp add: filter_empty_conv ids)
  have sel: "filter (\<lambda>c. c_id c = cid) (get_courses d') = [full_course d' ?row]"
    using old_courses row(1) by (simp add: get_courses_def tables(1) ids)
  have fields: "c_id (full_course d' ?row) = ''c'' @ gen 0"
    "c_title (full_course d' ?row) = cb_title body"
    "c_description (full_course d' ?row) = cb_description body"
    using row cid by (simp_all add: full_course_def Let_def)
  show ?thesis using sel fields cj_mods rt by simp
qed

theorem post_course_round_trip_witness:
  "fk_ok eight_lessons_db
   \<and> snd (post_course request_ids posted_course eight_lessons_db) = Inr ''c1700000000000''
   \<and> (\<exists>cj. filter (\<lambda>c. c_id c = ''c1700000000000'')
               (get_courses (fst (post_course request_ids posted_course eight_lessons_db))) = [cj]
            \<and> c_title cj = ''Rust'' \<and> c_description cj = ''Ownership and borrowing''
            \<and> list_all2 module_round_trip (cb_modules posted_course) (cj_modules cj))"
proof -
  have fk: "fk_ok eight_lessons_db" by code_simp
  have r: "snd (post_course request_ids posted_course eight_lessons_db) = Inr ''c1700000000000''"
    by code_simp
  then have p: "post_course request_ids posted_course eight_lessons_db =
      (fst (post_course request_ids posted_course eight_lessons_db), Inr ''c1700000000000'')"
    by (simp add: prod_eq_iff)
  have t: "cb_title posted_course = ''Rust''"
    "cb_description posted_course = ''Ownership and borrowing''"
    by (simp_all add: posted_course_def)
  show ?thesis
    using fk r post_course_round_trip[OF fk p] t by auto
qed

section \<open>The retry policy\<close>

declare withRetry_from.simps [simp del]

lemma upt_shift: "0 < n \<Longrightarrow> map f [0..<n] = f 0 # map (\<lambda>k. f (Suc k)) [0..<n - 1]"
  by (cases n) (simp_all add: upt_conv_Cons map_Suc_upt[symmetric] del: upt_Suc)

lemma delays_Suc:
  "map (\<lambda>j. (delay::nat) * 2 ^ j) [0..<Suc k] = delay # map (\<lambda>j. delay * 2 * 2 ^ j) [0..<k]"
  using upt_shift[of "Suc k" "\<lambda>j. delay * 2 ^ j"] by (simp add: mult.assoc del: upt_Suc)

lemma withRetry_from_decides:
  "i + k < retries \<Longrightarrow>
   \<forall>j<k. \<exists>e. fn (i + j) = Inl e \<and> isQuotaError e \<Longrightarrow>
   (\<exists>v. fn (i + k) = Inr v) \<or>
   (\<exists>e. fn (i + k) = Inl e \<and> (\<not> isQuotaError e \<or> Suc (i + k) = retries)) \<Longrightarrow>
   withRetry_from fn retries i delay =
     \<lparr>rr_result = fn (i + k), rr_calls = Suc k,
      rr_sleeps = map (\<lambda>j. delay * 2 ^ j) [0..<k]\<rparr>"
proof (induction k arbitrary: i delay)
  case 0
  then have i: "i < retries" by simp
  from "0.prems"(3) show ?case
  proof
    assume "\<exists>v. fn (i + 0) = Inr v"
    then obtain v where "fn i = Inr v" by auto
    then show ?thesis using i by (subst withRetry_from.simps) simp
  next
    assume "\<exists>e. fn (i + 0) = Inl e \<and> (\<not> isQuotaError e \<or> Suc (i + 0) = retries)"
    then obtain e where e: "fn i = Inl e" "\<not> isQuotaError e \<or> Suc i = retries" by auto
    then have "\<not> (isQuotaError e \<and> i < retries - 1)" by auto
    then show ?thesis using i e(1) by (subst withRetry_from.simps) auto
  qed
next
  case (Suc k)
  have i: "i < retries" and more: "i < retries - 1" using Suc.prems(1) by simp_all
  obtain e where e: "fn i = Inl e" "isQuotaError e"
    using Suc.prems(2) by (metis add.right_neutral zero_less_Suc)
  have a: "(i + 1) + k < retries" using Suc.prems(1) by simp
  have b: "\<forall>j<k. \<exists>e. fn ((i + 1) + j) = Inl e \<and> isQuotaError e"
  proof (intro allI impI)
    fix j assume "j < k"
    then have "Suc j < Suc k" by simp
    then have "\<exists>e. fn (i + Suc j) = Inl e \<and> isQuotaError e" using Suc.prems(2) by blast
    then show "\<exists>e. fn ((i + 1) + j) = Inl e \<and> isQuotaError e" by simp
  qed
  have c: "(\<exists>v. fn ((i + 1) + k) = Inr v) \<or>
      (\<exists>e. fn ((i + 1) + k) = Inl e \<and> (\<not> isQuotaError e \<or> Suc ((i + 1) + k) = retries))"
    using Suc.prems(3) by simp
  have r: "withRetry_from fn retries (i + 1) (delay * 2) =
      \<lparr>rr_result = fn ((i + 1) + k), rr_calls = Suc k,
       rr_sleeps = map (\<lambda>j. delay * 2 * 2 ^ j) [0..<k]\<rparr>"
    using Suc.IH[OF a b c] .
  have "withRetry_from fn retries i delay =
      (withRetry_from fn retries (i + 1) (delay * 2))
        \<lparr>rr_calls := Suc (rr_calls (withRetry_from fn retries (i + 1) (delay * 2))),
         rr_sleeps := delay # rr_sleeps (withRetry_from fn retries (i + 1) (delay * 2))\<rparr>"
    using i more e by (subst withRetry_from.simps) (simp add: Let_def)
  then show ?case unfolding r by (simp add: delays_Suc del: upt_Suc)
qed

lemma decisive_call_exists:
  assumes "0 < retries"
  shows "\<exists>k<retries. (\<forall>j<k. \<exists>e. fn j = Inl e \<and> isQuotaError e) \<and>
           ((\<exists>v. fn k = Inr v) \<or>
            (\<exists>e. fn k = Inl e \<and> (\<not> isQuotaError e \<or> Suc k = retries)))"
proof (cases "\<forall>j<retries. \<exists>e. fn j = Inl e \<and> isQuotaError e")
  case True
  let ?k = "retries - 1"
  have k: "?k < retries" "Suc ?k = retries" using assms by simp_all
  then obtain e where "fn ?k = Inl e" using True by blast
  then show ?thesis using True k by (intro exI[of _ ?k]) auto
next
  case False
  define k where "k = (LEAST j. \<not> (\<exists>e. fn j = Inl e \<and> isQuotaError e))"
  from False obtain j0 where j0: "j0 < retries" "\<not> (\<exists>e. fn j0 = Inl e \<and> isQuotaError e)" by blast
  have nk: "\<not> (\<exists>e. fn k = Inl e \<and> isQuotaError e)"
    unfolding k_def using j0(2) by (rule LeastI)
  have "k \<le> j0" unfolding k_def using j0(2) by (rule Least_le)
  then have lt: "k < retries" using j0(1) by simp
  have before: "\<forall>j<k. \<exists>e. fn j = Inl e \<and> isQuotaError e"
    using not_less_Least unfolding k_def by blast
  have "(\<exists>v. fn k = Inr v) \<or> (\<exists>e. fn k = Inl e \<and> \<not> isQuotaError e)"
    using nk by (cases "fn k") auto
  then show ?thesis using lt before by blast
qed

lemma withRetry_none:
  "withRetry fn 0 delay =
     \<lparr>rr_result = Inl (JsError ''Max retries exceeded'' None), rr_calls = 0, rr_sleeps = []\<rparr>"
  unfolding withRetry_def by (subst withRetry_from.simps) simp

lemma withRetry_decides:
  assumes "k < retries" and "\<forall>j<k. \<exists>e. fn j = Inl e \<and> isQuotaError e"
    and "(\<exists>v. fn k = Inr v) \<or> (\<exists>e. fn k = Inl e \<and> (\<not> isQuotaError e \<or> Suc k = retries))"
  shows "withRetry fn retries delay =
           \<lparr>rr_result = fn k, rr_calls = Suc k, rr_sleeps = map (\<lambda>j. delay * 2 ^ j) [0..<k]\<rparr>"
  unfolding withRetry_def using withRetry_from_decides[of 0 k retries fn delay] assms by simp

lemma withRetry_decided:
  assumes "0 < retries"
  obtains k where "k < retries" and "\<forall>j<k. \<exists>e. fn j = Inl e \<and> isQuotaError e"
    and "(\<exists>v. fn k = Inr v) \<or> (\<exists>e. fn k = Inl e \<and> (\<not> isQuotaError e \<or> Suc k = retries))"
    and "withRetry fn retries delay =
           \<lparr>rr_result = fn k, rr_calls = Suc k, rr_sleeps = map (\<lambda>j. delay * 2 ^ j) [0..<k]\<rparr>"
proof -
  from decisive_call_exists[OF assms, of fn] obtain k where
    k: "k < retries" "\<forall>j<k. \<exists>e. fn j = Inl e \<and> isQuotaError e"
      "(\<exists>v. fn k = Inr v) \<or> (\<exists>e. fn k = Inl e \<and> (\<not> isQuotaError e \<or> Suc k = retries))"
    by blast
  show thesis using that[OF k withRetry_decides[OF k]] .
qed

lemma withRetry_bounds:
  "rr_calls (withRetry fn retries delay) \<le> retries"
  "rr_sleeps (withRetry fn retries delay) =
     map (\<lambda>k. delay * 2 ^ k) [0..<rr_calls (withRetry fn retries delay) - 1]"
  "\<forall>k < rr_calls (withRetry fn retries delay) - 1. \<exists>e. fn k = Inl e \<and> isQuotaError e"
  "\<forall>k e. k < rr_calls (withRetry fn retries delay) \<and> fn k = Inl e \<and> \<not> isQuotaError e
         \<longrightarrow> rr_result (withRetry fn retries delay) = Inl e
             \<and> rr_calls (withRetry fn retries delay) = Suc k"
proof -
  have "rr_calls (withRetry fn retries delay) \<le> retries
    \<and> rr_sleeps (withRetry fn retries delay) =
       map (\<lambda>k. delay * 2 ^ k) [0..<rr_calls (withRetry fn retries delay) - 1]
    \<and> (\<forall>k < rr_calls (withRetry fn retries delay) - 1. \<exists>e. fn k = Inl e \<and> isQuotaError e)
    \<and> (\<forall>k e. k < rr_calls (withRetry fn retries delay) \<and> fn k = Inl e \<and> \<not> isQuotaError e
         \<longrightarrow> rr_result (withRetry fn retries delay) = Inl e
             \<and> rr_calls (withRetry fn retries delay) = Suc k)"
  proof (cases "retries = 0")
    case True
    then show ?thesis by (simp add: withRetry_none)
  next
    case False
    then have "0 < retries" by simp
    then obtain k where k: "k < retries" "\<forall>j<k. \<exists>e. fn j = Inl e \<and> isQuotaError e"
      and r: "withRetry fn retries delay =
           \<lparr>rr_result = fn k, rr_calls = Suc k, rr_sleeps = map (\<lambda>j. delay * 2 ^ j) [0..<k]\<rparr>"
      by (rule withRetry_decided)
    have "\<forall>k' e. k' < Suc k \<and> fn k' = Inl e \<and> \<not> isQuotaError e \<longrightarrow> fn k = Inl e \<and> k = k'"
    proof (intro allI impI)
      fix k' e assume a: "k' < Suc k \<and> fn k' = Inl e \<and> \<not> isQuotaError e"
      have "\<not> k' < k"
      proof
        assume "k' < k"
        then obtain e' where "fn k' = Inl e'" "isQuotaError e'" using k(2) by blast
        then show False using a by simp
      qed
      then have "k' = k" using a by simp
      then show "fn k = Inl e \<and> k = k'" using a by simp
    qed
    then show ?thesis using k unfolding r by simp blast
  qed
  then show
    "rr_calls (withRetry fn retries delay) \<le> retries"
    "rr_sleeps (withRetry fn retries delay) =
       map (\<lambda>k. delay * 2 ^ k) [0..<rr_calls (withRetry fn retries delay) - 1]"
    "\<forall>k < rr_calls (withRetry fn retries delay) - 1. \<exists>e. fn k = Inl e \<and> isQuotaError e"
    "\<forall>k e. k < rr_calls (withRetry fn retries delay) \<and> fn k = Inl e \<and> \<not> isQuotaError e
         \<longrightarrow> rr_result (withRetry fn retries delay) = Inl e
             \<and> rr_calls (withRetry fn retries delay) = Suc k"
    by blast+
qed

text \<open>
  C8. \<^verbatim>\<open>withRetry\<close> calls \<^verbatim>\<open>fn\<close> at most \<open>retries\<close> times; it waits once between two
  consecutive calls, first \<open>delay\<close> and then twice the previous wait; every failure it
  has retried after was of the quota class; and a failure that is not of the quota class
  is the result of the whole run, with no call after it. With no attempt allowed it
  rejects with \<^verbatim>\<open>Max retries exceeded\<close> and calls nothing. Otherwise the run is decided
  by the first call that succeeds or fails outside the quota class, or by the last
  allowed call when all calls before it were refused for quota: every call before the
  deciding one, a quota failure with attempts left, is followed by a wait and another
  call; the outcome of the deciding call \<open>k\<close> is the result, \<open>k + 1\<close> calls have been made
  and the waits are \<open>delay, 2 delay, \<dots>, 2 ^ (k - 1) delay\<close>. Such a deciding call always
  exists.
\<close>

theorem withRetry_policy:
  "rr_calls (withRetry fn retries delay) \<le> retries
   \<and> rr_sleeps (withRetry fn retries delay) =
       map (\<lambda>k. delay * 2 ^ k) [0..<rr_calls (withRetry fn retries delay) - 1]
   \<and> (\<forall>k < rr_calls (withRetry fn retries delay) - 1. \<exists>e. fn k = Inl e \<and> isQuotaError e)
   \<and> (\<forall>k e. k < rr_calls (withRetry fn retries delay) \<and> fn k = Inl e \<and> \<not> isQuotaError e
         \<longrightarrow> rr_result (withRetry fn retries delay) = Inl e
             \<and> rr_calls (withRetry fn retries delay) = Suc k)
   \<and> withRetry fn 0 delay =
       \<lparr>rr_result = Inl (JsError ''Max retries exceeded'' None), rr_calls = 0, rr_sleeps = []\<rparr>
   \<and> (\<forall>k. k < retries \<and> (\<forall>j<k. \<exists>e. fn j = Inl e \<and> isQuotaError e)
           \<and> ((\<exists>v. fn k = Inr v)
              \<or> (\<exists>e. fn k = Inl e \<and> (\<not> isQuotaError e \<or> Suc k = retries)))
         \<longrightarrow> withRetry fn retries delay =
               \<lparr>rr_result = fn k, rr_calls = Suc k,
                rr_sleeps = map (\<lambda>j. delay * 2 ^ j) [0..<k]\<rparr>)
   \<and> (0 < retries \<longrightarrow>
        (\<exists>k<retries. (\<forall>j<k. \<exists>e. fn j = Inl e \<and> isQuotaError e)
           \<and> ((\<exists>v. fn k = Inr v)
              \<or> (\<exists>e. fn k = Inl e \<and> (\<not> isQuotaError e \<or> Suc k = retries)))))"
  using withRetry_bounds[of fn retries delay] withRetry_none[of fn delay]
    withRetry_decides[of _ retries fn delay] decisive_call_exists[of retries fn]
  by blast

theorem withRetry_policy_witness:
  "withRetry busy_twice 3 1000 =
     \<lparr>rr_result = Inr ''ok'', rr_calls = 3, rr_sleeps = [1000, 2000]\<rparr>
   \<and> withRetry always_busy 4 1000 =
     \<lparr>rr_result = Inl (JsError ''quota exceeded'' (Some ''RESOURCE_EXHAUSTED'')),
      rr_calls = 4, rr_sleeps = [1000, 2000, 4000]\<rparr>
   \<and> withRetry flaky 3 1000 =
     \<lparr>rr_result = Inl (JsError ''fetch failed'' None), rr_calls = 2, rr_sleeps = [1000]\<rparr>"
proof -
  have q1: "isQuotaError (JsError ''429 Too Many Requests'' None)" by code_simp
  have q2: "isQuotaError (JsError ''quota exceeded'' (Some ''RESOURCE_EXHAUSTED''))" by code_simp
  have n: "\<not> isQuotaError (JsError ''fetch failed'' None)" by code_simp
  have d2: "map (\<lambda>j. (1000::nat) * 2 ^ j) [0..<2] = [1000, 2000]" by code_simp
  have d3: "map (\<lambda>j. (1000::nat) * 2 ^ j) [0..<3] = [1000, 2000, 4000]" by code_simp
  have d1: "map (\<lambda>j. (1000::nat) * 2 ^ j) [0..<1] = [1000]" by code_simp
  have b: "(2::nat) < 3 \<and> (\<forall>j<2. \<exists>e. busy_twice j = Inl e \<and> isQuotaError e)
           \<and> ((\<exists>v. busy_twice 2 = Inr v)
              \<or> (\<exists>e. busy_twice 2 = Inl e \<and> (\<not> isQuotaError e \<or> Suc 2 = 3)))"
    using q1 by (simp add: busy_twice_def)
  have a: "(3::nat) < 4 \<and> (\<forall>j<3. \<exists>e. always_busy j = Inl e \<and> isQuotaError e)
           \<and> ((\<exists>v. always_busy 3 = Inr v)
              \<or> (\<exists>e. always_busy 3 = Inl e \<and> (\<not> isQuotaError e \<or> Suc 3 = 4)))"
    using q2 by (simp add: always_busy_def)
  have f: "(1::nat) < 3 \<and> (\<forall>j<1. \<exists>e. flaky j = Inl e \<and> isQuotaError e)
           \<and> ((\<exists>v. flaky 1 = Inr v)
              \<or> (\<exists>e. flaky 1 = Inl e \<and> (\<not> isQuotaError e \<or> Suc 1 = 3)))"
    using q1 n by (simp add: flaky_def)
  have rb: "withRetry busy_twice 3 1000 =
      \<lparr>rr_result = busy_twice 2, rr_calls = Suc 2,
       rr_sleeps = map (\<lambda>j. 1000 * 2 ^ j) [0..<2]\<rparr>"
    using withRetry_policy[of busy_twice 3 1000] b by blast
  have ra: "withRetry always_busy 4 1000 =
      \<lparr>rr_result = always_busy 3, rr_calls = Suc 3,
       rr_sleeps = map (\<lambda>j. 1000 * 2 ^ j) [0..<3]\<rparr>"
    using withRetry_policy[of always_busy 4 1000] a by blast
  have rf: "withRetry flaky 3 1000 =
      \<lparr>rr_result = flaky 1, rr_calls = Suc 1,
       rr_sleeps = map (\<lambda>j. 1000 * 2 ^ j) [0..<1]\<rparr>"
    using withRetry_policy[of flaky 3 1000] f by blast
  show ?thesis
    unfolding rb ra rf d1 d2 d3 by (simp add: busy_twice_def always_busy_def flaky_def)
qed

section \<open>Running code and asking for feedback\<close>

lemma dispatch_completes: "snd (dispatch env props st) = None"
  by (simp add: dispatch_def run_javascript_def run_html_def run_python_def try_finally_def
      try_catch_def Let_def split: prod.splits option.splits sum.splits)

lemma runCode_never_throws: "snd (runCode env props st) = None"
  by (simp add: runCode_def try_finally_def try_catch_def and_then_def request_feedback_def Let_def
      split: prod.splits option.splits sum.splits)

lemma js_join_separated: "js_join sep xs = separated_by sep xs"
  by (induction sep xs rule: js_join.induct) simp_all

lemma capture_all:
  "foldl (console_call CaptureLog) logs calls =
     logs @ map (\<lambda>c. js_join '' '' (snd c)) (filter (\<lambda>c. fst c = LogMethod) calls)"
  by (induction calls arbitrary: logs) (simp_all add: console_call_def)

lemma eval_js_captures:
  "eval_js env (st\<lparr>console_log := CaptureLog\<rparr>) [] =
     (map (\<lambda>c. js_join '' '' (snd c)) (filter (\<lambda>c. fst c = LogMethod) (js_calls env)),
      js_fault env)"
  by (simp add: eval_js_def capture_all)

lemma run_javascript_ok:
  "js_fault env = None \<Longrightarrow>
   run_javascript env code st =
     (setOutput
        (js_or (js_join newline
                  (map (\<lambda>c. js_join '' '' (snd c))
                     (filter (\<lambda>c. fst c = LogMethod) (js_calls env))))
           ''Code executed successfully (no output).'') st, None)"
  by (simp add: run_javascript_def eval_js_captures try_finally_def try_catch_def setOutput_def)

lemma run_javascript_fault:
  "js_fault env = Some err \<Longrightarrow>
   run_javascript env code st = (setOutput (''Error: '' @ formatError err) st, None)"
  by (simp add: run_javascript_def eval_js_captures try_finally_def try_catch_def setOutput_def)

lemma run_javascript_cases:
  "run_javascript env code st =
     (setOutput (case js_fault env of
                   None \<Rightarrow>
                     js_or (js_join newline
                              (map (\<lambda>c. js_join '' '' (snd c))
                                 (filter (\<lambda>c. fst c = LogMethod) (js_calls env))))
                       ''Code executed successfully (no output).''
                 | Some err \<Rightarrow> ''Error: '' @ formatError err) st, None)"
  by (cases "js_fault env") (simp_all add: run_javascript_ok run_javascript_fault)

lemma run_python_eq:
  "run_python env code st =
     (if \<not> pyodide_ready st then (setOutput ''Python runtime not ready.'' st, None)
      else (setOutput (case py_outcome env of
                         Inr result \<Rightarrow> js_or result ''Code executed successfully.''
                       | Inl err \<Rightarrow> ''Python Error: '' @ formatError err)
              (st\<lparr>python_runs := python_runs st @ [code]\<rparr>), None))"
  by (simp add: run_python_def try_catch_def split: sum.splits)

text \<open>What a run leaves of the state it started in, whatever the language.\<close>

lemma dispatch_frame:
  "console_log (fst (dispatch env props st)) = console_log st"
  "feedback_requests (fst (dispatch env props st)) = feedback_requests st"
  "feedback_delivered (fst (dispatch env props st)) = feedback_delivered st"
  "isRunning (fst (dispatch env props st)) = isRunning st"
  by (simp_all add: dispatch_def run_javascript_cases run_html_def run_python_eq setOutput_def
      Let_def split: option.splits)

lemma runCode_eq:
  "runCode env props st =
     (let s = fst (dispatch env props (setOutput [] (st\<lparr>isRunning := True\<rparr>)));
          s1 = s\<lparr>feedback_requests :=
                   feedback_requests s @ [(p_lesson props, p_code props, ide_output st)]\<rparr>
      in case feedback_outcome env of
           Inl err \<Rightarrow>
             ((setOutput (''System Error: '' @ formatError err) s1)\<lparr>isRunning := False\<rparr>, None)
         | Inr fb \<Rightarrow>
             (s1\<lparr>feedback_delivered := feedback_delivered s1 @ [fb], isRunning := False\<rparr>, None))"
proof -
  obtain s where d: "dispatch env props (setOutput [] (st\<lparr>isRunning := True\<rparr>)) = (s, None)"
    using dispatch_completes[of env props "setOutput [] (st\<lparr>isRunning := True\<rparr>)"]
    by (cases "dispatch env props (setOutput [] (st\<lparr>isRunning := True\<rparr>))") auto
  show ?thesis
    by (simp add: runCode_def d and_then_def request_feedback_def try_catch_def try_finally_def
        Let_def split: sum.splits)
qed

text \<open>
  C5, as stated: in every JavaScript run all console output lines are captured in order
  and joined into the output. Not in a run that throws: the script has logged \<^verbatim>\<open>a 1\<close>
  and \<^verbatim>\<open>b\<close>, both lines have been captured, the script throws, and the output is the
  error text alone, with neither line in it.
\<close>

theorem run_javascript_fault_drops_lines:
  "fst (eval_js env_js_throws (idle_ide\<lparr>console_log := CaptureLog\<rparr>) []) = [''a 1'', ''b'']
   \<and> js_fault env_js_throws = Some (JsError ''x is not defined'' None)
   \<and> ide_output (fst (run_javascript env_js_throws (p_code js_props) idle_ide)) =
       ''Error: x is not defined''
   \<and> ide_output (fst (runCode env_js_throws js_props idle_ide)) = ''Error: x is not defined''"
  by code_simp

text \<open>
  C5, amended: in every JavaScript run each \<^verbatim>\<open>console.log\<close> call of the script is
  captured, in order, as its arguments separated by blanks; calls of other console
  methods are not captured. When the script returns, the output is the captured lines
  separated by newlines, or the fixed text \<^verbatim>\<open>Code executed successfully (no output).\<close>
  when that is the empty string. When the script throws, the run does not throw and the
  output is \<^verbatim>\<open>Error: \<close> followed by the formatted fault, without the captured lines.
  In both cases \<^verbatim>\<open>console.log\<close> is bound, after the run and after the whole of
  \<^verbatim>\<open>runCode\<close>, to what it was bound to before.
\<close>

theorem run_javascript_output_and_restore:
  "l_language (p_lesson props) = ''javascript'' \<Longrightarrow>
   dispatch env props st = run_javascript env (p_code props) st
   \<and> fst (eval_js env (st\<lparr>console_log := CaptureLog\<rparr>) []) =
       map (\<lambda>c. separated_by '' '' (snd c)) (filter (\<lambda>c. fst c = LogMethod) (js_calls env))
   \<and> snd (run_javascript env (p_code props) st) = None
   \<and> console_log (fst (run_javascript env (p_code props) st)) = console_log st
   \<and> console_log (fst (runCode env props st)) = console_log st
   \<and> (js_fault env = None \<longrightarrow>
        ide_output (fst (run_javascript env (p_code props) st)) =
          (if separated_by [CHR 0x0A]
                (map (\<lambda>c. separated_by '' '' (snd c))
                   (filter (\<lambda>c. fst c = LogMethod) (js_calls env))) = []
           then ''Code executed successfully (no output).''
           else separated_by [CHR 0x0A]
                  (map (\<lambda>c. separated_by '' '' (snd c))
                     (filter (\<lambda>c. fst c = LogMethod) (js_calls env)))))
   \<and> (\<forall>err. js_fault env = Some err \<longrightarrow>
        ide_output (fst (run_javascript env (p_code props) st)) = ''Error: '' @ formatError err)"
proof -
  assume js: "l_language (p_lesson props) = ''javascript''"
  let ?lines = "map (\<lambda>c. separated_by '' '' (snd c))
                  (filter (\<lambda>c. fst c = LogMethod) (js_calls env))"
  have lines: "map (\<lambda>c. js_join '' '' (snd c)) (filter (\<lambda>c. fst c = LogMethod) (js_calls env)) =
               ?lines"
    by (simp only: js_join_separated)
  have 1: "dispatch env props st = run_javascript env (p_code props) st"
    using js by (simp add: dispatch_def)
  have 2: "fst (eval_js env (st\<lparr>console_log := CaptureLog\<rparr>) []) = ?lines"
    unfolding eval_js_captures lines by simp
  have 3: "snd (run_javascript env (p_code props) st) = None"
    by (simp add: run_javascript_cases)
  have 4: "console_log (fst (run_javascript env (p_code props) st)) = console_log st"
    by (simp add: run_javascript_cases setOutput_def)
  have 5: "console_log (fst (runCode env props st)) = console_log st"
    by (simp add: runCode_eq Let_def dispatch_frame setOutput_def split: sum.splits)
  have 6: "js_fault env = None \<longrightarrow>
        ide_output (fst (run_javascript env (p_code props) st)) =
          (if separated_by [CHR 0x0A] ?lines = []
           then ''Code executed successfully (no output).''
           else separated_by [CHR 0x0A] ?lines)"
  proof
    assume ok: "js_fault env = None"
    have "ide_output (fst (run_javascript env (p_code props) st)) =
          js_or (js_join newline ?lines) ''Code executed successfully (no output).''"
      unfolding run_javascript_ok[OF ok] lines by (simp add: setOutput_def)
    also have "js_join newline ?lines = separated_by [CHR 0x0A] ?lines"
      unfolding newline_def by (rule js_join_separated)
    finally show "ide_output (fst (run_javascript env (p_code props) st)) =
          (if separated_by [CHR 0x0A] ?lines = []
           then ''Code executed successfully (no output).''
           else separated_by [CHR 0x0A] ?lines)"
      by (simp only: js_or_def)
  qed
  have 7: "\<forall>err. js_fault env = Some err \<longrightarrow>
        ide_output (fst (run_javascript env (p_code props) st)) = ''Error: '' @ formatError err"
    by (simp add: run_javascript_fault setOutput_def)
  show ?thesis using 1 2 3 4 5 6 7 by blast
qed

theorem run_javascript_output_and_restore_witness:
  "l_language (p_lesson js_props) = ''javascript''
   \<and> fst (eval_js env_js_three_lines (idle_ide\<lparr>console_log := CaptureLog\<rparr>) []) =
       [''a 1'', ''b'', ''c d e'']
   \<and> ide_output (fst (run_javascript env_js_three_lines (p_code js_props) idle_ide)) =
       ''a 1'' @ [CHR 0x0A] @ ''b'' @ [CHR 0x0A] @ ''c d e''
   \<and> ide_output (fst (run_javascript env_js_throws (p_code js_props) idle_ide)) =
       ''Error: x is not defined''
   \<and> console_log (fst (run_javascript env_js_throws (p_code js_props) idle_ide)) = NativeLog
   \<and> console_log (fst (runCode env_js_throws js_props idle_ide)) = NativeLog"
proof -
  have l: "l_language (p_lesson js_props) = ''javascript''"
    by (simp add: js_props_def js_lesson_def mk_lesson_def)
  have f1: "js_fault env_js_three_lines = None"
    by (simp add: env_js_three_lines_def)
  have f2: "js_fault env_js_throws = Some (JsError ''x is not defined'' None)"
    by (simp add: env_js_throws_def)
  have c: "console_log idle_ide = NativeLog"
    by (simp add: idle_ide_def)
  have lines: "map (\<lambda>c. separated_by '' '' (snd c))
                 (filter (\<lambda>c. fst c = LogMethod) (js_calls env_js_three_lines)) =
               [''a 1'', ''b'', ''c d e'']"
    by (simp add: env_js_three_lines_def)
  have t1: "fst (eval_js env_js_three_lines (idle_ide\<lparr>console_log := CaptureLog\<rparr>) []) =
              [''a 1'', ''b'', ''c d e'']
            \<and> ide_output (fst (run_javascript env_js_three_lines (p_code js_props) idle_ide)) =
              (if separated_by [CHR 0x0A] [''a 1'', ''b'', ''c d e''] = []
               then ''Code executed successfully (no output).''
               else separated_by [CHR 0x0A] [''a 1'', ''b'', ''c d e''])"
    using run_javascript_output_and_restore[OF l, of env_js_three_lines idle_ide] f1
    unfolding lines by blast
  have t2: "ide_output (fst (run_javascript env_js_throws (p_code js_props) idle_ide)) =
              ''Error: '' @ formatError (JsError ''x is not defined'' None)
            \<and> console_log (fst (run_javascript env_js_throws (p_code js_props) idle_ide)) =
              console_log idle_ide
            \<and> console_log (fst (runCode env_js_throws js_props idle_ide)) = console_log idle_ide"
    using run_javascript_output_and_restore[OF l, of env_js_throws idle_ide] f2 by blast
  show ?thesis using l t1 t2 c by simp
qed

text \<open>
  C9. Running a Python lesson while the interpreter is not loaded does not call the
  interpreter and does not throw: the run sets the output \<^verbatim>\<open>Python runtime not ready.\<close>
  and completes, \<^verbatim>\<open>runCode\<close> completes, and that output is the one shown when the
  feedback request that follows succeeds.
\<close>

theorem runCode_python_not_ready:
  "l_language (p_lesson props) = ''python'' \<Longrightarrow> \<not> pyodide_ready st \<Longrightarrow>
   dispatch env props st = (setOutput ''Python runtime not ready.'' st, None)
   \<and> snd (runCode env props st) = None
   \<and> python_runs (fst (runCode env props st)) = python_runs st
   \<and> output_calls (fst (runCode env props st)) =
       output_calls st @ [[], ''Python runtime not ready.''] @
       (case feedback_outcome env of
          Inl err \<Rightarrow> [''System Error: '' @ formatError err]
        | Inr fb \<Rightarrow> [])
   \<and> (\<forall>fb. feedback_outcome env = Inr fb \<longrightarrow>
        ide_output (fst (runCode env props st)) = ''Python runtime not ready.'')"
proof -
  assume py: "l_language (p_lesson props) = ''python''" and nr: "\<not> pyodide_ready st"
  have d: "\<And>s. \<not> pyodide_ready s \<Longrightarrow>
      dispatch env props s = (setOutput ''Python runtime not ready.'' s, None)"
    using py by (simp add: dispatch_def run_python_eq)
  have nr1: "\<not> pyodide_ready (setOutput [] (st\<lparr>isRunning := True\<rparr>))"
    using nr by (simp add: setOutput_def)
  show ?thesis
    unfolding runCode_eq d[OF nr1] d[OF nr] Let_def fst_conv
    by (simp add: setOutput_def split: sum.splits)
qed

theorem runCode_python_not_ready_witness:
  "l_language (p_lesson py_props) = ''python''
   \<and> \<not> pyodide_ready idle_ide
   \<and> snd (runCode env_js_logs py_props idle_ide) = None
   \<and> python_runs (fst (runCode env_js_logs py_props idle_ide)) = []
   \<and> ide_output (fst (runCode env_js_logs py_props idle_ide)) = ''Python runtime not ready.''
   \<and> output_calls (fst (runCode env_feedback_fails py_props idle_ide)) =
       [[], ''Python runtime not ready.'', ''System Error: 429 quota exceeded'']"
proof -
  have l: "l_language (p_lesson py_props) = ''python''"
    by (simp add: py_props_def py_lesson_def mk_lesson_def)
  have nr: "\<not> pyodide_ready idle_ide"
    by (simp add: idle_ide_def)
  have ok: "feedback_outcome env_js_logs = Inr (Feedback True ''Well done'')"
    by (simp add: env_js_logs_def)
  have ko: "feedback_outcome env_feedback_fails = Inl (JsError ''429 quota exceeded'' None)"
    by (simp add: env_feedback_fails_def)
  have idle: "python_runs idle_ide = []" "output_calls idle_ide = []"
    by (simp_all add: idle_ide_def)
  show ?thesis
    using l nr ok ko idle
      runCode_python_not_ready[OF l nr, of env_js_logs]
      runCode_python_not_ready[OF l nr, of env_feedback_fails]
    by simp
qed

text \<open>
  C4, as stated: a failure of the feedback request never masks or overwrites the output
  of the run. It does: the script has logged \<^verbatim>\<open>1\<close>, the run has set the output
  \<^verbatim>\<open>1\<close>, the feedback request is refused, and the output shown is the system error.
\<close>

theorem runCode_feedback_failure_overwrites_output:
  "ide_output (fst (dispatch env_feedback_fails js_props (setOutput [] (idle_ide\<lparr>isRunning := True\<rparr>)))) = ''1''
   \<and> ide_output (fst (runCode env_feedback_fails js_props idle_ide)) = ''System Error: 429 quota exceeded''"
  by code_simp


text \<open>
  C4, amended: after every run, whatever the language and whether the script returned or
  threw, \<^verbatim>\<open>runCode\<close> sends one feedback request for the lesson and the code. When the
  request succeeds its result is passed to \<^verbatim>\<open>onFeedback\<close> and the output of the run
  stays. When it fails, \<^verbatim>\<open>runCode\<close> does not throw, nothing is passed to
  \<^verbatim>\<open>onFeedback\<close>, and the output of the run is replaced by \<^verbatim>\<open>System Error: \<close> followed
  by the formatted failure. In both cases the component is no longer running.
\<close>

theorem runCode_feedback:
  "snd (runCode env props st) = None
   \<and> \<not> isRunning (fst (runCode env props st))
   \<and> map (\<lambda>(l, c, out). (l, c)) (feedback_requests (fst (runCode env props st))) =
       map (\<lambda>(l, c, out). (l, c)) (feedback_requests st) @ [(p_lesson props, p_code props)]
   \<and> (\<forall>fb. feedback_outcome env = Inr fb \<longrightarrow>
        feedback_delivered (fst (runCode env props st)) = feedback_delivered st @ [fb]
        \<and> ide_output (fst (runCode env props st)) =
            ide_output (fst (dispatch env props (setOutput [] (st\<lparr>isRunning := True\<rparr>)))))
   \<and> (\<forall>err. feedback_outcome env = Inl err \<longrightarrow>
        feedback_delivered (fst (runCode env props st)) = feedback_delivered st
        \<and> ide_output (fst (runCode env props st)) = ''System Error: '' @ formatError err)"
  by (simp add: runCode_eq Let_def dispatch_frame setOutput_def split: sum.splits)

theorem runCode_feedback_witness:
  "feedback_outcome env_js_logs = Inr (Feedback True ''Well done'')
   \<and> feedback_delivered (fst (runCode env_js_logs js_props idle_ide)) =
       [Feedback True ''Well done'']
   \<and> feedback_outcome env_feedback_fails = Inl (JsError ''429 quota exceeded'' None)
   \<and> feedback_delivered (fst (runCode env_feedback_fails js_props idle_ide)) = []
   \<and> ide_output (fst (runCode env_feedback_fails js_props idle_ide)) =
       ''System Error: 429 quota exceeded''
   \<and> \<not> isRunning (fst (runCode env_feedback_fails js_props idle_ide))"
proof -
  have ok: "feedback_outcome env_js_logs = Inr (Feedback True ''Well done'')"
    by (simp add: env_js_logs_def)
  have ko: "feedback_outcome env_feedback_fails = Inl (JsError ''429 quota exceeded'' None)"
    by (simp add: env_feedback_fails_def)
  have idle: "feedback_delivered idle_ide = []"
    by (simp add: idle_ide_def)
  show ?thesis
    using ok ko idle runCode_feedback[of env_js_logs js_props idle_ide]
      runCode_feedback[of env_feedback_fails js_props idle_ide]
    by simp
qed

end
